theory Spec2Isabelle
  imports Main "HOL-Library.Word"
begin

section \<open>JavaScript values as the dashboard server sees them\<close>

text \<open>
  The server (\<^verbatim>\<open>backend/server.js\<close>) works on values produced by \<^verbatim>\<open>JSON.parse\<close>.
  A JavaScript string is a sequence of UTF-16 code units, so \<^verbatim>\<open>length\<close> and
  \<^verbatim>\<open>substring\<close> count code units. An object is the list of its own properties in
  enumeration order; \<^verbatim>\<open>undefined\<close> is \<open>None\<close> of \<open>json option\<close>.

  A number is a double. The integers from \<open>-2^53\<close> to \<open>2^53 - 1\<close> are doubles, and a
  sum of two of them that stays in this range is computed exactly: these are \<open>JNum\<close>,
  a signed 54-bit value read with \<open>sint\<close> (minus zero is \<open>JNum 0\<close>: it prints, tests
  and adds as zero). Every other finite number is \<open>JReal\<close> and carries the text that
  \<^verbatim>\<open>String\<close> and \<^verbatim>\<open>JSON.stringify\<close> print for it, as its first code unit and the rest;
  the parser gives an infinity for a literal out of range, which is \<open>JInf\<close> (\<open>True\<close>
  for the positive one). Arithmetic on such numbers is not followed by this model.
\<close>

type_synonym code_unit = "16 word"
type_synonym jsstring = "code_unit list"
type_synonym exact = "54 word"

datatype json =
    JNull
  | JBool bool
  | JNum exact
  | JReal code_unit jsstring
  | JInf bool
  | JStr jsstring
  | JArr "json list"
  | JObj "(jsstring \<times> json) list"

datatype error = TypeError | SystemError

text \<open>An ASCII literal of the source, as code units.\<close>

definition ascii :: "string \<Rightarrow> jsstring" where
  "ascii s = map of_char s"

text \<open>Sequencing of a step that may throw.\<close>

definition ebind :: "error + 'a \<Rightarrow> ('a \<Rightarrow> error + 'b) \<Rightarrow> error + 'b" where
  "ebind m f = (case m of Inl e \<Rightarrow> Inl e | Inr x \<Rightarrow> f x)"

subsection \<open>Property reads and truthiness\<close>

text \<open>
  \<^verbatim>\<open>v.k\<close> for the property names this program reads (\<^verbatim>\<open>type\<close>, \<^verbatim>\<open>message\<close>,
  \<^verbatim>\<open>content\<close>, \<^verbatim>\<open>usage\<close>, ...): none of them is on a prototype, so the read is
  the own property of an object and \<^verbatim>\<open>undefined\<close> on a string, number, boolean or
  array. \<open>get\<close> is the read on a receiver already known not to be \<^verbatim>\<open>null\<close>;
  \<open>read_prop\<close> is the read that throws on \<^verbatim>\<open>null\<close>; \<open>opt_get\<close> is \<^verbatim>\<open>v?.k\<close>.
\<close>

fun get :: "json \<Rightarrow> jsstring \<Rightarrow> json option" where
  "get (JObj kvs) k = map_of kvs k"
| "get _ k = None"

definition read_prop :: "json \<Rightarrow> jsstring \<Rightarrow> error + json option" where
  "read_prop v k = (if v = JNull then Inl TypeError else Inr (get v k))"

fun opt_get :: "json option \<Rightarrow> jsstring \<Rightarrow> json option" where
  "opt_get None k = None"
| "opt_get (Some JNull) k = None"
| "opt_get (Some v) k = get v k"

fun truthy_val :: "json \<Rightarrow> bool" where
  "truthy_val JNull = False"
| "truthy_val (JBool b) = b"
| "truthy_val (JNum n) = (n \<noteq> 0)"
| "truthy_val (JReal c cs) = True"
| "truthy_val (JInf b) = True"
| "truthy_val (JStr s) = (s \<noteq> [])"
| "truthy_val (JArr xs) = True"
| "truthy_val (JObj kvs) = True"

fun truthy :: "json option \<Rightarrow> bool" where
  "truthy None = False"
| "truthy (Some v) = truthy_val v"

text \<open>\<^verbatim>\<open>a || b\<close>, and \<^verbatim>\<open>a || d\<close> with a default \<open>d\<close> that is a value.\<close>

definition js_or :: "json option \<Rightarrow> json option \<Rightarrow> json option" where
  "js_or a b = (if truthy a then a else b)"

fun or_else :: "json option \<Rightarrow> json \<Rightarrow> json" where
  "or_else None d = d"
| "or_else (Some v) d = (if truthy_val v then v else d)"

fun is_string :: "json option \<Rightarrow> bool" where
  "is_string (Some (JStr s)) = True"
| "is_string _ = False"

fun is_array :: "json option \<Rightarrow> bool" where
  "is_array (Some (JArr xs)) = True"
| "is_array _ = False"

text \<open>\<^verbatim>\<open>v.k === 'lit'\<close>.\<close>

definition is_lit :: "json option \<Rightarrow> string \<Rightarrow> bool" where
  "is_lit v s = (v = Some (JStr (ascii s)))"

subsection \<open>Numbers and strings\<close>

definition digit :: "nat \<Rightarrow> code_unit" where
  "digit d = of_nat (48 + d)"

function show_nat :: "nat \<Rightarrow> jsstring" where
  "show_nat n = (if n < 10 then [digit n] else show_nat (n div 10) @ [digit (n mod 10)])"
  by pat_completeness auto
termination
  by (relation "measure id") auto

declare show_nat.simps [simp del]

definition show_int :: "int \<Rightarrow> jsstring" where
  "show_int i = (if i < 0 then ascii ''-'' @ show_nat (nat (- i)) else show_nat (nat i))"

fun has_key :: "jsstring \<Rightarrow> (jsstring \<times> json) list \<Rightarrow> bool" where
  "has_key k [] = False"
| "has_key k ((k', v) # kvs) = (k = k' \<or> has_key k kvs)"

text \<open>
  \<^verbatim>\<open>String(v)\<close>, which is also what a template literal and \<^verbatim>\<open>Array.prototype.join\<close>
  apply. An array is joined with commas (\<^verbatim>\<open>null\<close> elements give the empty string); a
  plain object gives \<^verbatim>\<open>[object Object]\<close>, unless it has an own property
  \<^verbatim>\<open>toString\<close>: a parsed value is never callable, so the conversion throws.
\<close>

fun js_string :: "json \<Rightarrow> error + jsstring"
  and js_join :: "jsstring \<Rightarrow> json list \<Rightarrow> error + jsstring"
where
  "js_string JNull = Inr (ascii ''null'')"
| "js_string (JBool b) = Inr (if b then ascii ''true'' else ascii ''false'')"
| "js_string (JNum n) = Inr (show_int (sint n))"
| "js_string (JReal c cs) = Inr (c # cs)"
| "js_string (JInf b) = Inr (if b then ascii ''Infinity'' else ascii ''-Infinity'')"
| "js_string (JStr s) = Inr s"
| "js_string (JArr xs) = js_join (ascii '','') xs"
| "js_string (JObj kvs) =
     (if has_key (ascii ''toString'') kvs then Inl TypeError
      else Inr (ascii ''[object Object]''))"
| "js_join sep [] = Inr []"
| "js_join sep [x] = (if x = JNull then Inr [] else js_string x)"
| "js_join sep (x # y # ys) =
     (case (if x = JNull then Inr [] else js_string x) of
        Inl e \<Rightarrow> Inl e
      | Inr s \<Rightarrow> (case js_join sep (y # ys) of
                    Inl e \<Rightarrow> Inl e
                  | Inr r \<Rightarrow> Inr (s @ sep @ r)))"

text \<open>\<^verbatim>\<open>`${v}`\<close> for a value that may be \<^verbatim>\<open>undefined\<close>.\<close>

fun template :: "json option \<Rightarrow> error + jsstring" where
  "template None = Inr (ascii ''undefined'')"
| "template (Some v) = js_string v"

subsection \<open>The operator \<^verbatim>\<open>+\<close>\<close>

text \<open>
  \<^verbatim>\<open>a + b\<close> first reduces both operands to primitives; if either is a string the
  result is the concatenation of their string forms, otherwise the sum of their
  numeric forms. The operands that occur here are never \<^verbatim>\<open>undefined\<close>.

  \<open>PFloat\<close> is a number that is not a \<open>PNum\<close>, with the text \<^verbatim>\<open>String\<close> prints for
  it. \<open>PUnknown\<close> is a primitive this model does not determine: a sum in which an
  operand is not an integer of the exact range or whose result leaves that range
  (where the program rounds, or gives an infinity or NaN), and whatever is computed
  from such a value. No statement is made about a value that is \<open>PUnknown\<close>.
\<close>

datatype prim = PNull | PBool bool | PNum exact | PFloat jsstring | PStr jsstring | PUnknown

fun to_primitive :: "json \<Rightarrow> error + prim" where
  "to_primitive JNull = Inr PNull"
| "to_primitive (JBool b) = Inr (PBool b)"
| "to_primitive (JNum n) = Inr (PNum n)"
| "to_primitive (JReal c cs) = Inr (PFloat (c # cs))"
| "to_primitive (JInf b) = Inr (PFloat (if b then ascii ''Infinity'' else ascii ''-Infinity''))"
| "to_primitive (JStr s) = Inr (PStr s)"
| "to_primitive v = (case js_string v of Inl e \<Rightarrow> Inl e | Inr s \<Rightarrow> Inr (PStr s))"

text \<open>The string form of a primitive, when the model determines it.\<close>

fun prim_string :: "prim \<Rightarrow> jsstring option" where
  "prim_string PNull = Some (ascii ''null'')"
| "prim_string (PBool b) = Some (if b then ascii ''true'' else ascii ''false'')"
| "prim_string (PNum n) = Some (show_int (sint n))"
| "prim_string (PFloat t) = Some t"
| "prim_string (PStr s) = Some s"
| "prim_string PUnknown = None"

text \<open>
  The numeric form of a primitive when it is an integer of the exact range; the numeric
  form of a string is never taken, since a string operand makes \<^verbatim>\<open>+\<close> a concatenation.
\<close>

fun prim_number :: "prim \<Rightarrow> int option" where
  "prim_number PNull = Some 0"
| "prim_number (PBool b) = Some (if b then 1 else 0)"
| "prim_number (PNum n) = Some (sint n)"
| "prim_number (PFloat t) = None"
| "prim_number (PStr s) = None"
| "prim_number PUnknown = None"

fun is_pstr :: "prim \<Rightarrow> bool" where
  "is_pstr (PStr s) = True"
| "is_pstr _ = False"

definition in_range :: "int \<Rightarrow> bool" where
  "in_range r = (- (2 ^ 53) \<le> r \<and> r < 2 ^ 53)"

definition js_add :: "prim \<Rightarrow> prim \<Rightarrow> prim" where
  "js_add a b =
     (if is_pstr a \<or> is_pstr b then
        (case prim_string a of
           None \<Rightarrow> PUnknown
         | Some s \<Rightarrow> (case prim_string b of None \<Rightarrow> PUnknown | Some t \<Rightarrow> PStr (s @ t)))
      else
        (case prim_number a of
           None \<Rightarrow> PUnknown
         | Some x \<Rightarrow>
             (case prim_number b of
                None \<Rightarrow> PUnknown
              | Some y \<Rightarrow> if in_range (x + y) then PNum (word_of_int (x + y)) else PUnknown)))"

text \<open>\<^verbatim>\<open>acc += v\<close> for a parsed value \<open>v\<close>.\<close>

definition add_value :: "prim \<Rightarrow> json \<Rightarrow> error + prim" where
  "add_value acc v = (case to_primitive v of Inl e \<Rightarrow> Inl e | Inr p \<Rightarrow> Inr (js_add acc p))"

subsection \<open>\<^verbatim>\<open>JSON.stringify\<close>\<close>

text \<open>
  \<^verbatim>\<open>JSON.stringify(v)\<close> and \<^verbatim>\<open>JSON.stringify(v, null, 2)\<close> on a parsed value: strings
  are quoted with the standard escapes (a lone surrogate is written as an escape),
  an infinity is written \<^verbatim>\<open>null\<close>, and with a gap every element starts on its own
  indented line.
\<close>

definition hex_digit :: "nat \<Rightarrow> code_unit" where
  "hex_digit d = (if d < 10 then of_nat (48 + d) else of_nat (87 + d))"

definition uescape :: "code_unit \<Rightarrow> jsstring" where
  "uescape c =
     [0x5C, 0x75, hex_digit (unat c div 4096), hex_digit (unat c div 256 mod 16),
      hex_digit (unat c div 16 mod 16), hex_digit (unat c mod 16)]"

definition is_high_surrogate :: "code_unit \<Rightarrow> bool" where
  "is_high_surrogate c = (0xD800 \<le> c \<and> c \<le> 0xDBFF)"

definition is_low_surrogate :: "code_unit \<Rightarrow> bool" where
  "is_low_surrogate c = (0xDC00 \<le> c \<and> c \<le> 0xDFFF)"

definition escape_unit :: "code_unit \<Rightarrow> jsstring" where
  "escape_unit c =
     (if c = 0x08 then [0x5C, 0x62]
      else if c = 0x09 then [0x5C, 0x74]
      else if c = 0x0A then [0x5C, 0x6E]
      else if c = 0x0C then [0x5C, 0x66]
      else if c = 0x0D then [0x5C, 0x72]
      else if c = 0x22 then [0x5C, 0x22]
      else if c = 0x5C then [0x5C, 0x5C]
      else if c < 0x20 \<or> is_high_surrogate c \<or> is_low_surrogate c then uescape c
      else [c])"

fun quote_body :: "jsstring \<Rightarrow> jsstring" where
  "quote_body [] = []"
| "quote_body [c] = escape_unit c"
| "quote_body (c # d # ds) =
     (if is_high_surrogate c \<and> is_low_surrogate d then c # d # quote_body ds
      else escape_unit c @ quote_body (d # ds))"

definition quote :: "jsstring \<Rightarrow> jsstring" where
  "quote s = [0x22] @ quote_body s @ [0x22]"

fun join_strs :: "jsstring \<Rightarrow> jsstring list \<Rightarrow> jsstring" where
  "join_strs sep [] = []"
| "join_strs sep [s] = s"
| "join_strs sep (s # t # ts) = s @ sep @ join_strs sep (t # ts)"

definition wrap :: "jsstring \<Rightarrow> jsstring \<Rightarrow> jsstring \<Rightarrow> jsstring \<Rightarrow> jsstring list \<Rightarrow> jsstring" where
  "wrap gap ind opn cls parts =
     (if parts = [] then opn @ cls
      else if gap = [] then opn @ join_strs (ascii '','') parts @ cls
      else opn @ [0x0A] @ ind @ gap @ join_strs (ascii '','' @ [0x0A] @ ind @ gap) parts
           @ [0x0A] @ ind @ cls)"

fun stringify_at :: "jsstring \<Rightarrow> jsstring \<Rightarrow> json \<Rightarrow> jsstring"
  and stringify_elems :: "jsstring \<Rightarrow> jsstring \<Rightarrow> json list \<Rightarrow> jsstring list"
  and stringify_members :: "jsstring \<Rightarrow> jsstring \<Rightarrow> (jsstring \<times> json) list \<Rightarrow> jsstring list"
where
  "stringify_at gap ind JNull = ascii ''null''"
| "stringify_at gap ind (JBool b) = (if b then ascii ''true'' else ascii ''false'')"
| "stringify_at gap ind (JNum n) = show_int (sint n)"
| "stringify_at gap ind (JReal c cs) = c # cs"
| "stringify_at gap ind (JInf b) = ascii ''null''"
| "stringify_at gap ind (JStr s) = quote s"
| "stringify_at gap ind (JArr xs) =
     wrap gap ind (ascii ''['') (ascii '']'') (stringify_elems gap (ind @ gap) xs)"
| "stringify_at gap ind (JObj kvs) =
     wrap gap ind (ascii ''{'') (ascii ''}'') (stringify_members gap (ind @ gap) kvs)"
| "stringify_elems gap ind [] = []"
| "stringify_elems gap ind (x # xs) = stringify_at gap ind x # stringify_elems gap ind xs"
| "stringify_members gap ind [] = []"
| "stringify_members gap ind ((k, v) # kvs) =
     (quote k @ ascii '':'' @ (if gap = [] then [] else ascii '' '') @ stringify_at gap ind v)
       # stringify_members gap ind kvs"

definition stringify :: "json \<Rightarrow> jsstring" where
  "stringify v = stringify_at [] [] v"

definition stringify2 :: "json \<Rightarrow> jsstring" where
  "stringify2 v = stringify_at (ascii ''  '') [] v"

section \<open>Session aggregation: \<^verbatim>\<open>extractSessionInfo\<close>\<close>

text \<open>
  The loop variables of \<^verbatim>\<open>extractSessionInfo\<close>. The message count is a natural
  number: it is at most the length of the array of entries, which is below \<open>2^32\<close>,
  so counting it in doubles is exact.
\<close>

record loop_vars =
  v_totalInputTokens :: prim
  v_totalOutputTokens :: prim
  v_messageCount :: nat
  v_toolUses :: "json list"
  v_firstUserMessage :: jsstring
  v_summary :: jsstring
  v_model :: json

definition init_vars :: loop_vars where
  "init_vars =
     \<lparr>v_totalInputTokens = PNum 0, v_totalOutputTokens = PNum 0, v_messageCount = 0,
      v_toolUses = [], v_firstUserMessage = [], v_summary = [], v_model = JStr []\<rparr>"

text \<open>The object the function returns; the scanner and the watcher add the last three.\<close>

record session_info =
  sid :: jsstring
  project :: jsstring
  projectRaw :: jsstring
  summary :: jsstring
  messageCount :: nat
  totalInputTokens :: prim
  totalOutputTokens :: prim
  totalTokens :: prim
  toolUses :: "json list"
  model :: json
  entryCount :: nat
  filePath :: "jsstring option"
  lastModified :: "int option"
  fileSize :: "nat option"

subsection \<open>Token usage (lines 129--137)\<close>

text \<open>\<^verbatim>\<open>entry.usage || entry.message?.usage\<close>, for an entry that is not \<^verbatim>\<open>null\<close>.\<close>

definition entry_usage :: "json \<Rightarrow> json option" where
  "entry_usage entry =
     js_or (get entry (ascii ''usage'')) (opt_get (get entry (ascii ''message'')) (ascii ''usage''))"

definition usage_field :: "json \<Rightarrow> string \<Rightarrow> json" where
  "usage_field usage k = or_else (get usage (ascii k)) (JNum 0)"

definition add_usage :: "loop_vars \<Rightarrow> json \<Rightarrow> error + loop_vars" where
  "add_usage st usage =
     ebind (add_value (v_totalInputTokens st) (usage_field usage ''input_tokens'')) (\<lambda>i1.
     ebind (add_value (v_totalOutputTokens st) (usage_field usage ''output_tokens'')) (\<lambda>out.
     ebind (add_value i1 (usage_field usage ''cache_creation_input_tokens'')) (\<lambda>i2.
     ebind (add_value i2 (usage_field usage ''cache_read_input_tokens'')) (\<lambda>i3.
       Inr (st\<lparr>v_totalInputTokens := i3, v_totalOutputTokens := out\<rparr>)))))"

definition count_tokens :: "loop_vars \<Rightarrow> json \<Rightarrow> error + loop_vars" where
  "count_tokens st entry =
     (case entry_usage entry of
        None \<Rightarrow> Inr st
      | Some usage \<Rightarrow> if truthy_val usage then add_usage st usage else Inr st)"

subsection \<open>Message count (lines 139--142)\<close>

definition count_message :: "loop_vars \<Rightarrow> json \<Rightarrow> loop_vars" where
  "count_message st entry =
     (if is_lit (get entry (ascii ''type'')) ''user'' \<or> is_lit (get entry (ascii ''type'')) ''assistant''
      then st\<lparr>v_messageCount := v_messageCount st + 1\<rparr> else st)"

subsection \<open>First user message (lines 144--164)\<close>

text \<open>\<^verbatim>\<open>blocks.filter(c => c.type === t)\<close>: the read of \<^verbatim>\<open>c.type\<close> throws on a \<^verbatim>\<open>null\<close> block.\<close>

fun filter_type :: "string \<Rightarrow> json list \<Rightarrow> error + json list" where
  "filter_type t [] = Inr []"
| "filter_type t (c # cs) =
     (case read_prop c (ascii ''type'') of
        Inl e \<Rightarrow> Inl e
      | Inr ty \<Rightarrow> (case filter_type t cs of
                     Inl e \<Rightarrow> Inl e
                   | Inr r \<Rightarrow> Inr (if is_lit ty t then c # r else r)))"

definition text_or_empty :: "json \<Rightarrow> json" where
  "text_or_empty c = or_else (get c (ascii ''text'')) (JStr [])"

text \<open>The value of \<^verbatim>\<open>msg\<close> for a truthy \<^verbatim>\<open>entry.message\<close>; it is always a string.\<close>

definition user_message_text :: "json \<Rightarrow> error + jsstring" where
  "user_message_text m =
     (case m of
        JStr s \<Rightarrow> Inr s
      | _ \<Rightarrow>
         (case get m (ascii ''content'') of
            None \<Rightarrow> Inr (stringify m)
          | Some c \<Rightarrow>
              if truthy_val c then
                (case c of
                   JStr s \<Rightarrow> Inr s
                 | JArr blocks \<Rightarrow>
                     ebind (filter_type ''text'' blocks) (\<lambda>ts.
                       js_join (ascii '' '') (map text_or_empty ts))
                 | _ \<Rightarrow> Inr (stringify c))
              else Inr (stringify m)))"

definition first_user_message :: "loop_vars \<Rightarrow> json \<Rightarrow> error + loop_vars" where
  "first_user_message st entry =
     (case get entry (ascii ''message'') of
        None \<Rightarrow> Inr st
      | Some m \<Rightarrow>
          if is_lit (get entry (ascii ''type'')) ''user'' \<and> v_firstUserMessage st = [] \<and> truthy_val m
          then ebind (user_message_text m) (\<lambda>msg. Inr (st\<lparr>v_firstUserMessage := take 200 msg\<rparr>))
          else Inr st)"

subsection \<open>Summary (lines 166--177)\<close>

text \<open>The text taken from a truthy \<^verbatim>\<open>entry.summary\<close>.\<close>

definition summary_of :: "json \<Rightarrow> jsstring" where
  "summary_of sv =
     (case sv of
        JStr s \<Rightarrow> s
      | _ \<Rightarrow>
         (case get sv (ascii ''content'') of
            None \<Rightarrow> stringify sv
          | Some c \<Rightarrow>
              if truthy_val c then (case c of JStr s \<Rightarrow> s | _ \<Rightarrow> stringify c)
              else stringify sv))"

definition take_summary :: "loop_vars \<Rightarrow> json \<Rightarrow> loop_vars" where
  "take_summary st entry =
     (case get entry (ascii ''summary'') of
        None \<Rightarrow> st
      | Some sv \<Rightarrow>
          if is_lit (get entry (ascii ''type'')) ''summary'' \<and> truthy_val sv
          then st\<lparr>v_summary := summary_of sv\<rparr> else st)"

subsection \<open>Tool names (lines 179--195)\<close>

text \<open>
  \<^verbatim>\<open>toolUses.includes(v)\<close> compares with SameValueZero: primitives by value, arrays
  and objects by identity. Every array or object that reaches the test was created by
  the parser for a different place of the input, so it is never found.
\<close>

fun is_primitive :: "json \<Rightarrow> bool" where
  "is_primitive (JArr xs) = False"
| "is_primitive (JObj kvs) = False"
| "is_primitive _ = True"

definition js_includes :: "json list \<Rightarrow> json \<Rightarrow> bool" where
  "js_includes xs v = (is_primitive v \<and> v \<in> set xs)"

definition push_unique :: "json list \<Rightarrow> json \<Rightarrow> json list" where
  "push_unique xs v = (if js_includes xs v then xs else xs @ [v])"

definition entry_tool_name :: "json \<Rightarrow> json" where
  "entry_tool_name entry =
     or_else (js_or (get entry (ascii ''tool'')) (get entry (ascii ''name''))) (JStr (ascii ''unknown''))"

definition contributes_tool :: "json \<Rightarrow> bool" where
  "contributes_tool entry =
     (is_lit (get entry (ascii ''type'')) ''tool_use'' \<or> truthy (get entry (ascii ''tool'')))"

definition track_tool :: "loop_vars \<Rightarrow> json \<Rightarrow> loop_vars" where
  "track_tool st entry =
     (if contributes_tool entry
      then st\<lparr>v_toolUses := push_unique (v_toolUses st) (entry_tool_name entry)\<rparr> else st)"

text \<open>The loop over the blocks of an assistant message (lines 188--194).\<close>

fun scan_blocks :: "json list \<Rightarrow> json list \<Rightarrow> error + json list" where
  "scan_blocks tools [] = Inr tools"
| "scan_blocks tools (block # blocks) =
     (case read_prop block (ascii ''type'') of
        Inl e \<Rightarrow> Inl e
      | Inr ty \<Rightarrow>
          (case get block (ascii ''name'') of
             None \<Rightarrow> scan_blocks tools blocks
           | Some n \<Rightarrow>
               if is_lit ty ''tool_use'' \<and> truthy_val n
               then scan_blocks (push_unique tools n) blocks
               else scan_blocks tools blocks))"

definition track_blocks :: "loop_vars \<Rightarrow> json \<Rightarrow> error + loop_vars" where
  "track_blocks st entry =
     (case opt_get (get entry (ascii ''message'')) (ascii ''content'') of
        Some (JArr blocks) \<Rightarrow>
          if is_lit (get entry (ascii ''type'')) ''assistant''
          then ebind (scan_blocks (v_toolUses st) blocks) (\<lambda>ts. Inr (st\<lparr>v_toolUses := ts\<rparr>))
          else Inr st
      | _ \<Rightarrow> Inr st)"

subsection \<open>Model (lines 197--200)\<close>

definition take_model :: "loop_vars \<Rightarrow> json \<Rightarrow> loop_vars" where
  "take_model st entry =
     (if truthy_val (v_model st) then st
      else st\<lparr>v_model :=
        or_else (js_or (get entry (ascii ''model''))
                       (opt_get (get entry (ascii ''message'')) (ascii ''model''))) (JStr [])\<rparr>)"

subsection \<open>The loop and the result\<close>

text \<open>
  One iteration of the loop. The first statement reads \<^verbatim>\<open>entry.usage\<close>, which throws
  when the entry is \<^verbatim>\<open>null\<close>; after it the entry is known not to be \<^verbatim>\<open>null\<close>.
\<close>

definition step :: "loop_vars \<Rightarrow> json \<Rightarrow> error + loop_vars" where
  "step st entry =
     ebind (read_prop entry (ascii ''usage'')) (\<lambda>_.
     ebind (count_tokens st entry) (\<lambda>st1.
     ebind (first_user_message (count_message st1 entry) entry) (\<lambda>st2.
     ebind (track_blocks (track_tool (take_summary st2 entry) entry) entry) (\<lambda>st3.
       Inr (take_model st3 entry)))))"

fun run_loop :: "loop_vars \<Rightarrow> json list \<Rightarrow> error + loop_vars" where
  "run_loop st [] = Inr st"
| "run_loop st (entry # entries) =
     (case step st entry of Inl e \<Rightarrow> Inl e | Inr st' \<Rightarrow> run_loop st' entries)"

text \<open>\<^verbatim>\<open>s.replace(pat, '')\<close> with a string pattern: the first occurrence is removed.\<close>

fun remove_first :: "jsstring \<Rightarrow> jsstring \<Rightarrow> jsstring" where
  "remove_first pat [] = []"
| "remove_first pat (c # cs) =
     (if take (length pat) (c # cs) = pat then drop (length pat) (c # cs)
      else c # remove_first pat cs)"

definition decodeProjectName :: "jsstring \<Rightarrow> jsstring" where
  "decodeProjectName encoded = map (\<lambda>c. if c = 0x2D then 0x2F else c) encoded"

text \<open>\<^verbatim>\<open>summary || firstUserMessage || 'No summary'\<close> on strings.\<close>

definition summary_text :: "loop_vars \<Rightarrow> jsstring" where
  "summary_text st =
     (if v_summary st \<noteq> [] then v_summary st
      else if v_firstUserMessage st \<noteq> [] then v_firstUserMessage st
      else ascii ''No summary'')"

definition make_info :: "loop_vars \<Rightarrow> json list \<Rightarrow> jsstring \<Rightarrow> jsstring \<Rightarrow> session_info" where
  "make_info st entries proj filename =
     \<lparr>sid = remove_first (ascii ''.jsonl'') filename,
      project = decodeProjectName proj,
      projectRaw = proj,
      summary = summary_text st,
      messageCount = v_messageCount st,
      totalInputTokens = v_totalInputTokens st,
      totalOutputTokens = v_totalOutputTokens st,
      totalTokens = js_add (v_totalInputTokens st) (v_totalOutputTokens st),
      toolUses = v_toolUses st,
      model = v_model st,
      entryCount = length entries,
      filePath = None, lastModified = None, fileSize = None\<rparr>"

definition extractSessionInfo :: "json list \<Rightarrow> jsstring \<Rightarrow> jsstring \<Rightarrow> error + session_info" where
  "extractSessionInfo entries proj filename =
     (case run_loop init_vars entries of
        Inl e \<Rightarrow> Inl e
      | Inr st \<Rightarrow> Inr (make_info st entries proj filename))"

section \<open>Content formatting: \<^verbatim>\<open>formatEntryContent\<close>\<close>

text \<open>
  The formatter returns a string, or for a user message that carries tool results the
  object \<^verbatim>\<open>{type: 'tool_results', results: [{tool_use_id, content}]}\<close>.
\<close>

datatype content =
    Text jsstring
  | ToolResults "(json option \<times> jsstring option) list"

text \<open>\<^verbatim>\<open>xs.map(f)\<close> for a callback that may throw.\<close>

fun map_e :: "('a \<Rightarrow> error + 'b) \<Rightarrow> 'a list \<Rightarrow> error + 'b list" where
  "map_e f [] = Inr []"
| "map_e f (x # xs) =
     (case f x of
        Inl e \<Rightarrow> Inl e
      | Inr y \<Rightarrow> (case map_e f xs of Inl e \<Rightarrow> Inl e | Inr ys \<Rightarrow> Inr (y # ys)))"

text \<open>
  The callback of lines 258--260: the text of a text block, a string element itself,
  anything else stringified.
\<close>

definition result_part :: "json \<Rightarrow> error + json" where
  "result_part c =
     ebind (read_prop c (ascii ''type'')) (\<lambda>ty.
       if is_lit ty ''text'' \<and> truthy (get c (ascii ''text''))
       then Inr (or_else (get c (ascii ''text'')) JNull)
       else if is_string (Some c) then Inr c
       else Inr (JStr (stringify c)))"

fun extractToolResultContent :: "json option \<Rightarrow> error + jsstring option" where
  "extractToolResultContent None = Inr None"
| "extractToolResultContent (Some (JStr s)) = Inr (Some s)"
| "extractToolResultContent (Some (JArr xs)) =
     ebind (map_e result_part xs) (\<lambda>ps.
     ebind (js_join [0x0A] ps) (\<lambda>r. Inr (Some r)))"
| "extractToolResultContent (Some v) = Inr (Some (stringify v))"

text \<open>
  The callback of lines 290--292 (and 304--306): the text of a text block or a string
  element, else \<^verbatim>\<open>null\<close>; \<^verbatim>\<open>filter(Boolean)\<close> then keeps the truthy results.
\<close>

definition text_part :: "json \<Rightarrow> error + json" where
  "text_part c =
     ebind (read_prop c (ascii ''type'')) (\<lambda>ty.
       if is_lit ty ''text'' \<and> truthy (get c (ascii ''text''))
       then Inr (or_else (get c (ascii ''text'')) JNull)
       else if is_string (Some c) then Inr c
       else Inr JNull)"

definition texts_of :: "json list \<Rightarrow> error + json list" where
  "texts_of blocks = ebind (map_e text_part blocks) (\<lambda>ts. Inr (filter truthy_val ts))"

definition tool_result_entry :: "json \<Rightarrow> error + (json option \<times> jsstring option)" where
  "tool_result_entry tr =
     ebind (extractToolResultContent (get tr (ascii ''content''))) (\<lambda>c.
       Inr (get tr (ascii ''tool_use_id''), c))"

text \<open>
  The user branch (lines 269--315). Each part returns \<open>Some\<close> when the source returns
  from it and \<open>None\<close> when control falls through to the next statement.
\<close>

definition user_message_part :: "json \<Rightarrow> error + content option" where
  "user_message_part entry =
     (case opt_get (get entry (ascii ''message'')) (ascii ''content'') of
        Some (JStr s) \<Rightarrow> Inr (if s \<noteq> [] then Some (Text s) else None)
      | Some (JArr blocks) \<Rightarrow>
          ebind (filter_type ''tool_result'' blocks) (\<lambda>toolResults.
            if toolResults \<noteq> []
            then ebind (map_e tool_result_entry toolResults) (\<lambda>rs. Inr (Some (ToolResults rs)))
            else ebind (texts_of blocks) (\<lambda>texts.
              if texts \<noteq> [] then ebind (js_join [0x0A] texts) (\<lambda>r. Inr (Some (Text r)))
              else Inr None))
      | _ \<Rightarrow> Inr None)"

definition user_content_part :: "json \<Rightarrow> error + content option" where
  "user_content_part entry =
     (case get entry (ascii ''content'') of
        Some (JStr s) \<Rightarrow> Inr (if s \<noteq> [] then Some (Text s) else None)
      | Some (JArr blocks) \<Rightarrow>
          ebind (texts_of blocks) (\<lambda>texts.
            if texts \<noteq> [] then ebind (js_join [0x0A] texts) (\<lambda>r. Inr (Some (Text r)))
            else Inr None)
      | _ \<Rightarrow> Inr None)"

definition message_or_entry :: "json \<Rightarrow> jsstring" where
  "message_or_entry entry =
     (case get entry (ascii ''message'') of
        None \<Rightarrow> stringify2 entry
      | Some m \<Rightarrow> if truthy_val m then stringify2 m else stringify2 entry)"

definition format_user :: "json \<Rightarrow> error + content" where
  "format_user entry =
     (case get entry (ascii ''message'') of
        Some (JStr s) \<Rightarrow> Inr (Text s)
      | _ \<Rightarrow>
          ebind (user_message_part entry) (\<lambda>r1.
            case r1 of
              Some c \<Rightarrow> Inr c
            | None \<Rightarrow>
                ebind (user_content_part entry) (\<lambda>r2.
                  case r2 of
                    Some c \<Rightarrow> Inr c
                  | None \<Rightarrow> Inr (Text (message_or_entry entry)))))"

text \<open>
  One block of an assistant message (lines 325--331): the value pushed to
  \<^verbatim>\<open>parts\<close>, if any. \<^verbatim>\<open>block.thinking.substring\<close> is a function only when the
  value is a string, and \<^verbatim>\<open>JSON.stringify\<close> of a missing \<^verbatim>\<open>input\<close> is
  \<^verbatim>\<open>undefined\<close>, which has no \<^verbatim>\<open>substring\<close>.
\<close>

definition thinking_label :: jsstring where
  "thinking_label = [0xD83D, 0xDCAD] @ ascii '' Thinking:'' @ [0x0A]"

definition tool_label :: jsstring where
  "tool_label = [0xD83D, 0xDD27] @ ascii '' Tool: ''"

definition input_label :: jsstring where
  "input_label = [0x0A] @ ascii ''Input: ''"

definition result_label :: jsstring where
  "result_label = [0xD83D, 0xDCE4] @ ascii '' Result: ''"

definition summary_label :: jsstring where
  "summary_label = [0xD83D, 0xDCDD] @ ascii '' Summary: ''"

definition info_label :: jsstring where
  "info_label = [0x2139, 0xFE0F] @ ascii '' ''"

definition thinking_part :: "json \<Rightarrow> error + json" where
  "thinking_part t =
     (case t of
        JStr s \<Rightarrow> Inr (JStr (thinking_label @ take 500 s @ ascii ''...''))
      | _ \<Rightarrow> Inl TypeError)"

definition tool_use_part :: "json \<Rightarrow> error + json" where
  "tool_use_part block =
     ebind (template (get block (ascii ''name''))) (\<lambda>name.
       case get block (ascii ''input'') of
         None \<Rightarrow> Inl TypeError
       | Some inp \<Rightarrow> Inr (JStr (tool_label @ name @ input_label @ take 300 (stringify2 inp))))"

definition assistant_part :: "json \<Rightarrow> error + json list" where
  "assistant_part block =
     ebind (read_prop block (ascii ''type'')) (\<lambda>ty.
       if is_lit ty ''text'' \<and> truthy (get block (ascii ''text''))
       then Inr [or_else (get block (ascii ''text'')) JNull]
       else if is_lit ty ''thinking'' \<and> truthy (get block (ascii ''thinking''))
       then ebind (thinking_part (or_else (get block (ascii ''thinking'')) JNull)) (\<lambda>p. Inr [p])
       else if is_lit ty ''tool_use''
       then ebind (tool_use_part block) (\<lambda>p. Inr [p])
       else Inr [])"

definition or_placeholder :: "jsstring \<Rightarrow> string \<Rightarrow> jsstring" where
  "or_placeholder s d = (if s \<noteq> [] then s else ascii d)"

definition assistant_message_part :: "json \<Rightarrow> error + content option" where
  "assistant_message_part entry =
     (case opt_get (get entry (ascii ''message'')) (ascii ''content'') of
        Some (JStr s) \<Rightarrow> Inr (if s \<noteq> [] then Some (Text s) else None)
      | Some (JArr blocks) \<Rightarrow>
          ebind (map_e assistant_part blocks) (\<lambda>pss.
          ebind (js_join [0x0A, 0x0A] (concat pss)) (\<lambda>r.
            Inr (Some (Text (or_placeholder r ''[Processing...]'')))))
      | _ \<Rightarrow> Inr None)"

definition assistant_content_part :: "json \<Rightarrow> error + content option" where
  "assistant_content_part entry =
     (case get entry (ascii ''content'') of
        Some (JStr s) \<Rightarrow> Inr (if s \<noteq> [] then Some (Text s) else None)
      | Some (JArr blocks) \<Rightarrow>
          ebind (filter_type ''text'' blocks) (\<lambda>ts.
          ebind (js_join [0x0A] (map text_or_empty ts)) (\<lambda>r.
            Inr (Some (Text (or_placeholder r ''[Response]'')))))
      | _ \<Rightarrow> Inr None)"

definition message_or_empty :: "json \<Rightarrow> jsstring" where
  "message_or_empty entry =
     (case get entry (ascii ''message'') of
        None \<Rightarrow> ascii ''[Empty response]''
      | Some m \<Rightarrow> if truthy_val m then stringify2 m else ascii ''[Empty response]'')"

definition format_assistant :: "json \<Rightarrow> error + content" where
  "format_assistant entry =
     (case get entry (ascii ''message'') of
        Some (JStr s) \<Rightarrow> Inr (Text s)
      | _ \<Rightarrow>
          ebind (assistant_message_part entry) (\<lambda>r1.
            case r1 of
              Some c \<Rightarrow> Inr c
            | None \<Rightarrow>
                ebind (assistant_content_part entry) (\<lambda>r2.
                  case r2 of
                    Some c \<Rightarrow> Inr c
                  | None \<Rightarrow> Inr (Text (message_or_empty entry)))))"

text \<open>The remaining branches (lines 349--370).\<close>

definition format_tool_use :: "json \<Rightarrow> error + content" where
  "format_tool_use entry =
     ebind (js_string (or_else (js_or (get entry (ascii ''name'')) (get entry (ascii ''tool'')))
                               (JStr (ascii ''unknown'')))) (\<lambda>toolName.
       Inr (Text (tool_label @ toolName @ input_label @
         take 500 (stringify2 (or_else (js_or (get entry (ascii ''input''))
                                              (get entry (ascii ''arguments''))) (JObj []))))))"

definition result_string :: "json \<Rightarrow> jsstring" where
  "result_string entry =
     (case or_else (js_or (js_or (get entry (ascii ''result'')) (get entry (ascii ''output'')))
                          (get entry (ascii ''content''))) (JStr []) of
        JStr s \<Rightarrow> s
      | v \<Rightarrow> stringify v)"

definition format_tool_result :: "json \<Rightarrow> content" where
  "format_tool_result entry =
     Text (result_label @ take 500 (result_string entry) @
           (if length (result_string entry) > 500 then ascii ''...'' else []))"

definition format_summary :: "json \<Rightarrow> error + content" where
  "format_summary entry =
     ebind (js_string (or_else (get entry (ascii ''summary'')) (JStr []))) (\<lambda>s.
       Inr (Text (summary_label @ s)))"

definition format_other :: "json \<Rightarrow> error + content" where
  "format_other entry =
     ebind (js_string (or_else (get entry (ascii ''type'')) (JStr (ascii ''unknown'')))) (\<lambda>typeLabel.
       Inr (Text (info_label @ typeLabel @ ascii '': '' @ take 300 (stringify2 entry))))"

definition formatEntryContent :: "json \<Rightarrow> error + content" where
  "formatEntryContent entry =
     ebind (read_prop entry (ascii ''type'')) (\<lambda>ty.
       if is_lit ty ''user'' then format_user entry
       else if is_lit ty ''assistant'' then format_assistant entry
       else if is_lit ty ''tool_use'' then format_tool_use entry
       else if is_lit ty ''tool_result'' then Inr (format_tool_result entry)
       else if is_lit ty ''summary'' then format_summary entry
       else format_other entry)"

section \<open>Record decoding: \<^verbatim>\<open>parseJsonlFile\<close>\<close>

text \<open>
  \<^verbatim>\<open>String.prototype.trim\<close> removes the white space and line terminator code units
  of the language from both ends.
\<close>

definition is_ws :: "code_unit \<Rightarrow> bool" where
  "is_ws c =
     (c = 0x09 \<or> c = 0x0A \<or> c = 0x0B \<or> c = 0x0C \<or> c = 0x0D \<or> c = 0x20 \<or> c = 0xA0
      \<or> c = 0x1680 \<or> (0x2000 \<le> c \<and> c \<le> 0x200A) \<or> c = 0x2028 \<or> c = 0x2029
      \<or> c = 0x202F \<or> c = 0x205F \<or> c = 0x3000 \<or> c = 0xFEFF)"

definition trim :: "jsstring \<Rightarrow> jsstring" where
  "trim s = rev (dropWhile is_ws (rev (dropWhile is_ws s)))"

text \<open>\<^verbatim>\<open>s.split('\n')\<close>: the empty string gives one empty line.\<close>

fun split_lines :: "jsstring \<Rightarrow> jsstring \<Rightarrow> jsstring list" where
  "split_lines cur [] = [rev cur]"
| "split_lines cur (c # cs) =
     (if c = 0x0A then rev cur # split_lines [] cs else split_lines (c # cur) cs)"

definition split_nl :: "jsstring \<Rightarrow> jsstring list" where
  "split_nl s = split_lines [] s"

text \<open>
  \<^verbatim>\<open>JSON.parse\<close> is the runtime's parser and is a parameter \<open>parse\<close> of the decoder:
  \<open>None\<close> when it throws. The callback of lines 65--71 turns a throw into \<^verbatim>\<open>null\<close>.
\<close>

definition parse_or_null :: "(jsstring \<Rightarrow> json option) \<Rightarrow> jsstring \<Rightarrow> json" where
  "parse_or_null parse line = (case parse line of None \<Rightarrow> JNull | Some v \<Rightarrow> v)"

definition content_lines :: "jsstring \<Rightarrow> jsstring list" where
  "content_lines content = filter (\<lambda>line. trim line \<noteq> []) (split_nl (trim content))"

definition decode_text :: "(jsstring \<Rightarrow> json option) \<Rightarrow> jsstring \<Rightarrow> json list" where
  "decode_text parse content =
     filter truthy_val (map (parse_or_null parse) (content_lines content))"

text \<open>
  The file system as the server reads it: what is at a path (a file with its text, or
  \<open>None\<close> for a file that cannot be read; a directory with its entry names), with
  the modification time and size \<^verbatim>\<open>statSync\<close> reports.
\<close>

datatype node = File "jsstring option" | Dir "jsstring list"

type_synonym filesystem = "jsstring \<Rightarrow> (node \<times> int \<times> nat) option"

definition parseJsonlFile :: "(jsstring \<Rightarrow> json option) \<Rightarrow> filesystem \<Rightarrow> jsstring \<Rightarrow> json list" where
  "parseJsonlFile parse fs file_path =
     (case fs file_path of
        Some (File (Some content), _, _) \<Rightarrow> decode_text parse content
      | _ \<Rightarrow> [])"

text \<open>
  \<^verbatim>\<open>JSON.parse\<close> on three texts: \<^verbatim>\<open>0\<close>, \<^verbatim>\<open>{}\<close> and a record with a usage
  object, with the values it parses them to. It stands for the parser in evaluations
  whose lines are among these texts.
\<close>

definition parse_sample :: "jsstring \<Rightarrow> json option" where
  \<open>parse_sample line =
     map_of
       [(ascii ''0'', JNum 0),
        (ascii ''{}'', JObj []),
        (ascii ''{"usage":{"input_tokens":5,"output_tokens":7}}'',
         JObj [(ascii ''usage'',
                JObj [(ascii ''input_tokens'', JNum 5), (ascii ''output_tokens'', JNum 7)])])]
       line\<close>

section \<open>Directory scanning and queries\<close>

text \<open>
  \<^verbatim>\<open>path.join\<close> is a parameter \<open>pj\<close>; \<open>root\<close> is \<^verbatim>\<open>CLAUDE_DIR\<close>. A file system
  call on a path where nothing is, and \<^verbatim>\<open>readdirSync\<close> on a file, throw.
\<close>

definition ends_with :: "jsstring \<Rightarrow> jsstring \<Rightarrow> bool" where
  "ends_with s suf = (length suf \<le> length s \<and> drop (length s - length suf) s = suf)"

fun scan_files ::
  "(jsstring list \<Rightarrow> jsstring) \<Rightarrow> (jsstring \<Rightarrow> json option) \<Rightarrow> filesystem \<Rightarrow> jsstring \<Rightarrow> jsstring
     \<Rightarrow> jsstring list \<Rightarrow> error + session_info list" where
  "scan_files pj parse fs proj projectPath [] = Inr []"
| "scan_files pj parse fs proj projectPath (file # files) =
     (if \<not> ends_with file (ascii ''.jsonl'') then scan_files pj parse fs proj projectPath files
      else
        (case fs (pj [projectPath, file]) of
           None \<Rightarrow> Inl SystemError
         | Some (nd, mtime, sz) \<Rightarrow>
             (case extractSessionInfo (parseJsonlFile parse fs (pj [projectPath, file])) proj file of
                Inl e \<Rightarrow> Inl e
              | Inr info \<Rightarrow>
                  (case scan_files pj parse fs proj projectPath files of
                     Inl e \<Rightarrow> Inl e
                   | Inr rest \<Rightarrow>
                       Inr (info\<lparr>filePath := Some (pj [projectPath, file]),
                                 lastModified := Some mtime, fileSize := Some sz\<rparr> # rest)))))"

fun scan_projects ::
  "(jsstring list \<Rightarrow> jsstring) \<Rightarrow> (jsstring \<Rightarrow> json option) \<Rightarrow> filesystem \<Rightarrow> jsstring
     \<Rightarrow> jsstring list \<Rightarrow> error + session_info list" where
  "scan_projects pj parse fs root [] = Inr []"
| "scan_projects pj parse fs root (proj # projects) =
     (case fs (pj [root, proj]) of
        None \<Rightarrow> Inl SystemError
      | Some (File c, _, _) \<Rightarrow> scan_projects pj parse fs root projects
      | Some (Dir files, _, _) \<Rightarrow>
          (case scan_files pj parse fs proj (pj [root, proj]) files of
             Inl e \<Rightarrow> Inl e
           | Inr found \<Rightarrow>
               (case scan_projects pj parse fs root projects of
                  Inl e \<Rightarrow> Inl e
                | Inr rest \<Rightarrow> Inr (found @ rest))))"

text \<open>The comparator of line 113 orders by modification time, newest first; the sort is stable.\<close>

definition newest_first :: "session_info list \<Rightarrow> session_info list" where
  "newest_first sessions =
     sort_key (\<lambda>s. case lastModified s of None \<Rightarrow> 0 | Some t \<Rightarrow> - t) sessions"

definition getAllSessions ::
  "(jsstring list \<Rightarrow> jsstring) \<Rightarrow> (jsstring \<Rightarrow> json option) \<Rightarrow> filesystem \<Rightarrow> jsstring
     \<Rightarrow> error + session_info list" where
  "getAllSessions pj parse fs root =
     (case fs root of
        None \<Rightarrow> Inr []
      | Some (File c, _, _) \<Rightarrow> Inl SystemError
      | Some (Dir projects, _, _) \<Rightarrow>
          ebind (scan_projects pj parse fs root projects) (\<lambda>sessions.
            Inr (newest_first sessions)))"

text \<open>\<^verbatim>\<open>getSessionDetails\<close>: \<open>Inr None\<close> is the \<^verbatim>\<open>null\<close> it returns for a missing file.\<close>

record message =
  m_index :: nat
  m_type :: json
  m_timestamp :: "json option"
  m_content :: content
  m_raw :: json

record session_detail =
  d_sessionId :: jsstring
  d_project :: jsstring
  d_messages :: "message list"
  d_stats :: session_info

fun format_messages :: "nat \<Rightarrow> json list \<Rightarrow> error + message list" where
  "format_messages i [] = Inr []"
| "format_messages i (entry # entries) =
     (case read_prop entry (ascii ''type'') of
        Inl e \<Rightarrow> Inl e
      | Inr ty \<Rightarrow>
          (case formatEntryContent entry of
             Inl e \<Rightarrow> Inl e
           | Inr c \<Rightarrow>
               (case format_messages (i + 1) entries of
                  Inl e \<Rightarrow> Inl e
                | Inr ms \<Rightarrow>
                    Inr (\<lparr>m_index = i,
                          m_type = or_else ty (JStr (ascii ''unknown'')),
                          m_timestamp = js_or (get entry (ascii ''timestamp'')) (get entry (ascii ''ts'')),
                          m_content = c,
                          m_raw = entry\<rparr> # ms))))"

definition getSessionDetails ::
  "(jsstring list \<Rightarrow> jsstring) \<Rightarrow> (jsstring \<Rightarrow> json option) \<Rightarrow> filesystem \<Rightarrow> jsstring
     \<Rightarrow> jsstring \<Rightarrow> jsstring \<Rightarrow> error + session_detail option" where
  "getSessionDetails pj parse fs root proj sessionId =
     (case fs (pj [root, proj, sessionId @ ascii ''.jsonl'']) of
        None \<Rightarrow> Inr None
      | Some _ \<Rightarrow>
          ebind (format_messages 0
                   (parseJsonlFile parse fs (pj [root, proj, sessionId @ ascii ''.jsonl'']))) (\<lambda>messages.
          ebind (extractSessionInfo
                   (parseJsonlFile parse fs (pj [root, proj, sessionId @ ascii ''.jsonl'']))
                   proj (sessionId @ ascii ''.jsonl'')) (\<lambda>info.
            Inr (Some \<lparr>d_sessionId = sessionId, d_project = decodeProjectName proj,
                       d_messages = messages, d_stats = info\<rparr>))))"





section \<open>Notions used to state the properties\<close>

text \<open>Object and string literals with ASCII text, for concrete records.\<close>

definition obj :: "(string \<times> json) list \<Rightarrow> json" where
  "obj kvs = JObj (map (\<lambda>(k, v). (ascii k, v)) kvs)"

definition str :: "string \<Rightarrow> json" where
  "str s = JStr (ascii s)"

text \<open>
  The lines of a file text that the parser accepts: the syntactically valid lines of
  the specification's decoder property.
\<close>

definition spec_valid_lines :: "(jsstring \<Rightarrow> json option) \<Rightarrow> jsstring \<Rightarrow> jsstring list" where
  "spec_valid_lines parse content = filter (\<lambda>line. parse line \<noteq> None) (split_nl content)"

text \<open>A \<^verbatim>\<open>path.join\<close> for concrete evaluations: the segments joined with a slash.\<close>

definition join_slash :: "jsstring list \<Rightarrow> jsstring" where
  "join_slash segments = join_strs (ascii ''/'') segments"

text \<open>
  A record that sets the summary: its type is \<^verbatim>\<open>summary\<close> and its \<^verbatim>\<open>summary\<close> field
  is truthy; and the text it sets.
\<close>

definition has_summary :: "json \<Rightarrow> bool" where
  "has_summary entry =
     (is_lit (get entry (ascii ''type'')) ''summary'' \<and> truthy (get entry (ascii ''summary'')))"

definition entry_summary_text :: "json \<Rightarrow> jsstring" where
  "entry_summary_text entry =
     (case get entry (ascii ''summary'') of None \<Rightarrow> [] | Some sv \<Rightarrow> summary_of sv)"

text \<open>
  A user record with a truthy \<^verbatim>\<open>message\<close>, and the text it gives: the rendering of
  the message cut to 200 code units.
\<close>

definition has_user_message :: "json \<Rightarrow> bool" where
  "has_user_message entry =
     (is_lit (get entry (ascii ''type'')) ''user'' \<and> truthy (get entry (ascii ''message'')))"

definition user_text :: "json \<Rightarrow> jsstring" where
  "user_text entry =
     (case get entry (ascii ''message'') of
        None \<Rightarrow> []
      | Some m \<Rightarrow> (case user_message_text m of Inl e \<Rightarrow> [] | Inr t \<Rightarrow> take 200 t))"

text \<open>The text of the first user record that has a message and a non-empty text.\<close>

fun first_captured :: "json list \<Rightarrow> jsstring" where
  "first_captured [] = []"
| "first_captured (entry # entries) =
     (if has_user_message entry \<and> user_text entry \<noteq> [] then user_text entry
      else first_captured entries)"

text \<open>The text of the first record of type \<^verbatim>\<open>user\<close>, as the specification words it.\<close>

definition spec_first_user_text :: "json list \<Rightarrow> jsstring" where
  "spec_first_user_text entries =
     (case filter (\<lambda>entry. is_lit (get entry (ascii ''type'')) ''user'') entries of
        [] \<Rightarrow> []
      | entry # _ \<Rightarrow> user_text entry)"

text \<open>
  The usage object that is counted for a record: \<^verbatim>\<open>record.usage\<close> when it is truthy
  (an empty object is truthy), else \<^verbatim>\<open>record.message.usage\<close> when that is truthy,
  else none.
\<close>

definition counted_usage :: "json \<Rightarrow> json option" where
  "counted_usage entry =
     (if truthy (get entry (ascii ''usage'')) then get entry (ascii ''usage'')
      else if truthy (opt_get (get entry (ascii ''message'')) (ascii ''usage''))
      then opt_get (get entry (ascii ''message'')) (ascii ''usage'')
      else None)"



text \<open>
  A token count: a non-negative integer of the exact range (an absent or falsy field
  counts as \<open>0\<close>), and its value.
\<close>

fun is_count :: "json \<Rightarrow> bool" where
  "is_count (JNum n) = (0 \<le> sint n)"
| "is_count _ = False"



text \<open>Every token count of the counted usage object of the record is a token count.\<close>

definition integer_usage :: "json \<Rightarrow> bool" where
  "integer_usage entry =
     (case counted_usage entry of
        None \<Rightarrow> True
      | Some u \<Rightarrow>
          is_count (usage_field u ''input_tokens'') \<and> is_count (usage_field u ''output_tokens'')
          \<and> is_count (usage_field u ''cache_creation_input_tokens'')
          \<and> is_count (usage_field u ''cache_read_input_tokens''))"





text \<open>
  The tool names a record contributes, in order: the entry-level name of a
  \<^verbatim>\<open>tool_use\<close> record or of a record with a \<^verbatim>\<open>tool\<close> field, then the names of the
  \<^verbatim>\<open>tool_use\<close> blocks of an assistant record with array content.
\<close>

definition block_name :: "json \<Rightarrow> json option" where
  "block_name block =
     (case get block (ascii ''name'') of
        None \<Rightarrow> None
      | Some n \<Rightarrow>
          if is_lit (get block (ascii ''type'')) ''tool_use'' \<and> truthy_val n then Some n else None)"

definition block_names :: "json \<Rightarrow> json list" where
  "block_names entry =
     (case opt_get (get entry (ascii ''message'')) (ascii ''content'') of
        Some (JArr blocks) \<Rightarrow>
          if is_lit (get entry (ascii ''type'')) ''assistant''
          then List.map_filter block_name blocks else []
      | _ \<Rightarrow> [])"

definition contributed :: "json \<Rightarrow> json list" where
  "contributed entry =
     (if contributes_tool entry then [entry_tool_name entry] else []) @ block_names entry"

definition contributed_names :: "json list \<Rightarrow> json list" where
  "contributed_names entries = concat (map contributed entries)"

text \<open>The first occurrences of a list, in order.\<close>

definition first_occurrences :: "'a list \<Rightarrow> 'a list" where
  "first_occurrences xs = rev (remdups (rev xs))"

text \<open>
  The contributed names that are kept: every name, in order, except a primitive value
  (a string, a number, a boolean) that is equal to a name contributed before it.
\<close>

definition kept_names :: "json list \<Rightarrow> json list" where
  "kept_names xs =
     map (\<lambda>i. xs ! i)
       (filter (\<lambda>i. \<not> (is_primitive (xs ! i) \<and> xs ! i \<in> set (take i xs))) [0..<length xs])"

text \<open>A name that is an object or an array.\<close>

definition is_structured :: "json \<Rightarrow> bool" where
  "is_structured v = (\<not> is_primitive v)"

text \<open>The definitions that evaluate the aggregator on a concrete record sequence.\<close>

lemmas aggregator_defs =
  extractSessionInfo_def make_info_def init_vars_def step_def read_prop_def count_tokens_def
  entry_usage_def add_usage_def usage_field_def add_value_def js_add_def js_or_def
  count_message_def first_user_message_def user_message_text_def take_summary_def summary_of_def
  track_tool_def contributes_tool_def entry_tool_name_def push_unique_def js_includes_def
  track_blocks_def take_model_def summary_text_def decodeProjectName_def text_or_empty_def

text \<open>Concrete records of the specification's examples.\<close>

definition user_hello :: json where
  "user_hello =
     obj [(''type'', str ''user''),
          (''message'', obj [(''role'', str ''user''), (''content'', str ''hello'')])]"

definition summary_S :: json where
  "summary_S = obj [(''type'', str ''summary''), (''summary'', str ''S'')]"

definition tool_record :: "string \<Rightarrow> json" where
  "tool_record name = obj [(''type'', str ''tool_use''), (''name'', str name)]"

definition summary_T :: json where
  "summary_T = obj [(''type'', str ''summary''), (''summary'', str ''T'')]"

definition summary_missing :: json where
  "summary_missing = obj [(''type'', str ''summary'')]"

definition user_empty :: json where
  "user_empty = obj [(''type'', str ''user''), (''message'', obj [(''content'', JArr [])])]"

definition user_second :: json where
  "user_second = obj [(''type'', str ''user''), (''message'', str ''second'')]"

definition user_blocks :: json where
  "user_blocks =
     obj [(''type'', str ''user''),
          (''message'', obj [(''content'',
             JArr [obj [(''type'', str ''text''), (''text'', str ''a'')],
                   obj [(''type'', str ''image'')],
                   obj [(''type'', str ''text''), (''text'', str ''b'')]])])]"

definition tool_object :: json where
  "tool_object = obj [(''tool'', JObj [])]"

definition assistant_tools :: json where
  "assistant_tools =
     obj [(''type'', str ''assistant''),
          (''message'', obj [(''content'',
             JArr [obj [(''type'', str ''tool_use''), (''name'', str ''read'')],
                   obj [(''type'', str ''text''), (''text'', str ''ok'')],
                   obj [(''type'', str ''tool_use''), (''name'', str ''grep'')]])])]"

definition is_text_block :: "json \<Rightarrow> bool" where
  "is_text_block c = is_lit (get c (ascii ''type'')) ''text''"

definition user_number :: json where
  "user_number = obj [(''type'', str ''user''), (''message'', obj [(''content'', JNum 5)])]"

definition user_bare :: json where
  "user_bare = obj [(''type'', str ''user''), (''message'', obj [])]"

definition user_blank :: json where
  "user_blank = obj [(''type'', str ''user''), (''message'', obj [(''content'', str [])])]"

lemmas record_defs =
  user_hello_def user_empty_def user_second_def user_blocks_def user_number_def user_bare_def
  user_blank_def
  obj_def str_def







text \<open>
  A record on which the aggregator cannot throw: it is not \<^verbatim>\<open>null\<close>, its token counts
  are integers, and the blocks of an array content are not \<^verbatim>\<open>null\<close> and have a string
  (or no) \<^verbatim>\<open>text\<close>.
\<close>

definition plain_block :: "json \<Rightarrow> bool" where
  "plain_block b =
     (b \<noteq> JNull \<and> (case get b (ascii ''text'') of None \<Rightarrow> True | Some t \<Rightarrow> is_string (Some t)))"

definition plain_entry :: "json \<Rightarrow> bool" where
  "plain_entry entry =
     (entry \<noteq> JNull \<and> integer_usage entry
      \<and> (case opt_get (get entry (ascii ''message'')) (ascii ''content'') of
            Some (JArr blocks) \<Rightarrow> list_all plain_block blocks
          | _ \<Rightarrow> True))"






section \<open>Basic facts\<close>

lemma ebind_Inl [simp]: "ebind (Inl e) f = Inl e"
  by (simp add: ebind_def)

lemma ebind_Inr [simp]: "ebind (Inr x) f = f x"
  by (simp add: ebind_def)

lemma ebind_eq_Inr: "ebind m f = Inr y \<longleftrightarrow> (\<exists>x. m = Inr x \<and> f x = Inr y)"
  by (cases m) simp_all

lemma unat_of_char: "unat (of_char c :: 16 word) = of_char c"
proof -
  have "(of_char c :: 16 word) = of_nat (of_char c)" by (simp only: of_nat_of_char)
  moreover have "(of_char c :: nat) < 2 ^ 16"
    by (rule less_trans [OF nat_of_char_less_256]) simp
  ultimately show ?thesis by (simp add: unat_of_nat take_bit_nat_eq_self)
qed

lemma of_char_word_eq_iff: "(of_char c :: 16 word) = of_char d \<longleftrightarrow> c = d"
  by (metis unat_of_char of_char_eq_iff)

lemma ascii_eq_iff [simp]: "ascii s = ascii t \<longleftrightarrow> s = t"
  unfolding ascii_def
  by (rule inj_map_eq_map) (simp add: inj_on_def of_char_word_eq_iff)

lemma ascii_Nil [simp]: "ascii [] = []" "ascii s = [] \<longleftrightarrow> s = []" "length (ascii s) = length s"
  by (simp_all add: ascii_def)

lemma ascii_append: "ascii (s @ t) = ascii s @ ascii t"
  by (simp add: ascii_def)

lemma is_lit_Some [simp]: "is_lit (Some (JStr (ascii s))) t \<longleftrightarrow> s = t"
  by (simp add: is_lit_def)

lemma is_lit_None [simp]: "\<not> is_lit None t"
  by (simp add: is_lit_def)


lemma get_Some_not_null: "get v k = Some x \<Longrightarrow> v \<noteq> JNull"
  by (cases v) simp_all

lemma read_prop_get: "get v k = Some x \<Longrightarrow> read_prop v k' = Inr (get v k')"
  by (cases v) (simp_all add: read_prop_def)

section \<open>The aggregation loop, field by field\<close>

lemma count_tokens_keeps:
  assumes "count_tokens st e = Inr st'"
  shows "v_summary st' = v_summary st" "v_firstUserMessage st' = v_firstUserMessage st"
    "v_toolUses st' = v_toolUses st"
  using assms
  by (auto simp: count_tokens_def add_usage_def ebind_eq_Inr split: option.splits if_splits)

lemma count_message_keeps [simp]:
  "v_summary (count_message st e) = v_summary st"
  "v_firstUserMessage (count_message st e) = v_firstUserMessage st"
  "v_toolUses (count_message st e) = v_toolUses st"
  "v_totalInputTokens (count_message st e) = v_totalInputTokens st"
  "v_totalOutputTokens (count_message st e) = v_totalOutputTokens st"
  by (simp_all add: count_message_def)

lemma first_user_message_keeps:
  assumes "first_user_message st e = Inr st'"
  shows "v_summary st' = v_summary st" "v_toolUses st' = v_toolUses st"
    "v_totalInputTokens st' = v_totalInputTokens st"
    "v_totalOutputTokens st' = v_totalOutputTokens st"
  using assms
  by (auto simp: first_user_message_def ebind_eq_Inr split: option.splits if_splits)

lemma take_summary_keeps [simp]:
  "v_firstUserMessage (take_summary st e) = v_firstUserMessage st"
  "v_toolUses (take_summary st e) = v_toolUses st"
  "v_totalInputTokens (take_summary st e) = v_totalInputTokens st"
  "v_totalOutputTokens (take_summary st e) = v_totalOutputTokens st"
  by (simp_all add: take_summary_def split: option.splits)

lemma track_tool_keeps [simp]:
  "v_summary (track_tool st e) = v_summary st"
  "v_firstUserMessage (track_tool st e) = v_firstUserMessage st"
  "v_totalInputTokens (track_tool st e) = v_totalInputTokens st"
  "v_totalOutputTokens (track_tool st e) = v_totalOutputTokens st"
  by (simp_all add: track_tool_def)

lemma track_blocks_keeps:
  assumes "track_blocks st e = Inr st'"
  shows "v_summary st' = v_summary st" "v_firstUserMessage st' = v_firstUserMessage st"
    "v_totalInputTokens st' = v_totalInputTokens st"
    "v_totalOutputTokens st' = v_totalOutputTokens st"
  using assms
  by (auto simp: track_blocks_def ebind_eq_Inr split: option.splits json.splits if_splits)

lemma take_model_keeps [simp]:
  "v_summary (take_model st e) = v_summary st"
  "v_firstUserMessage (take_model st e) = v_firstUserMessage st"
  "v_toolUses (take_model st e) = v_toolUses st"
  "v_totalInputTokens (take_model st e) = v_totalInputTokens st"
  "v_totalOutputTokens (take_model st e) = v_totalOutputTokens st"
  by (simp_all add: take_model_def)

lemma stepE:
  assumes "step st e = Inr st'"
  obtains st1 st2 st3 where "e \<noteq> JNull" "count_tokens st e = Inr st1"
    "first_user_message (count_message st1 e) e = Inr st2"
    "track_blocks (track_tool (take_summary st2 e) e) e = Inr st3"
    "st' = take_model st3 e"
  using assms by (auto simp: step_def ebind_eq_Inr read_prop_def split: if_splits)

lemma v_summary_take_summary:
  "v_summary (take_summary st e) = (if has_summary e then entry_summary_text e else v_summary st)"
  by (auto simp: take_summary_def has_summary_def entry_summary_text_def split: option.splits)

lemma step_summary:
  assumes "step st e = Inr st'"
  shows "v_summary st' = (if has_summary e then entry_summary_text e else v_summary st)"
proof -
  from assms obtain st1 st2 st3 where
    1: "count_tokens st e = Inr st1" and
    2: "first_user_message (count_message st1 e) e = Inr st2" and
    3: "track_blocks (track_tool (take_summary st2 e) e) e = Inr st3" and
    4: "st' = take_model st3 e"
    by (rule stepE)
  have "v_summary st' = v_summary (take_summary st2 e)"
    by (simp add: 4 track_blocks_keeps(1) [OF 3])
  moreover have "v_summary st2 = v_summary st"
    by (simp add: first_user_message_keeps(1) [OF 2] count_tokens_keeps(1) [OF 1])
  ultimately show ?thesis by (simp add: v_summary_take_summary)
qed

lemma run_loop_summary:
  "run_loop st es = Inr st' \<Longrightarrow>
     v_summary st' =
       (if filter has_summary es = [] then v_summary st
        else entry_summary_text (last (filter has_summary es)))"
proof (induction es arbitrary: st)
  case Nil
  then show ?case by simp
next
  case (Cons e es)
  from Cons.prems obtain st1 where s: "step st e = Inr st1" and r: "run_loop st1 es = Inr st'"
    by (auto split: sum.splits)
  show ?case
    using Cons.IH [OF r] step_summary [OF s] by auto
qed

lemma v_firstUserMessage_first_user_message:
  assumes "first_user_message st e = Inr st'"
  shows "v_firstUserMessage st' =
     (if v_firstUserMessage st \<noteq> [] then v_firstUserMessage st
      else if has_user_message e then user_text e else [])"
  using assms
  by (auto simp: first_user_message_def has_user_message_def user_text_def ebind_eq_Inr
      split: option.splits if_splits)

lemma step_firstUserMessage:
  assumes "step st e = Inr st'"
  shows "v_firstUserMessage st' =
     (if v_firstUserMessage st \<noteq> [] then v_firstUserMessage st
      else if has_user_message e then user_text e else [])"
proof -
  from assms obtain st1 st2 st3 where
    1: "count_tokens st e = Inr st1" and
    2: "first_user_message (count_message st1 e) e = Inr st2" and
    3: "track_blocks (track_tool (take_summary st2 e) e) e = Inr st3" and
    4: "st' = take_model st3 e"
    by (rule stepE)
  have "v_firstUserMessage st' = v_firstUserMessage st2"
    by (simp add: 4 track_blocks_keeps(2) [OF 3])
  moreover have "v_firstUserMessage (count_message st1 e) = v_firstUserMessage st"
    by (simp add: count_tokens_keeps(2) [OF 1])
  ultimately show ?thesis
    using v_firstUserMessage_first_user_message [OF 2] by simp
qed

lemma run_loop_firstUserMessage:
  "run_loop st es = Inr st' \<Longrightarrow>
     v_firstUserMessage st' =
       (if v_firstUserMessage st \<noteq> [] then v_firstUserMessage st else first_captured es)"
proof (induction es arbitrary: st)
  case Nil
  then show ?case by simp
next
  case (Cons e es)
  from Cons.prems obtain st1 where s: "step st e = Inr st1" and r: "run_loop st1 es = Inr st'"
    by (auto split: sum.splits)
  show ?case
    using Cons.IH [OF r] step_firstUserMessage [OF s] by auto
qed

lemma scan_blocks_foldl:
  "scan_blocks tools blocks = Inr r \<Longrightarrow>
     r = foldl push_unique tools (List.map_filter block_name blocks)"
proof (induction blocks arbitrary: tools)
  case Nil
  then show ?case by (simp add: List.map_filter_simps)
next
  case (Cons b bs)
  from Cons.prems have nn: "b \<noteq> JNull"
    by (auto simp: read_prop_def split: if_splits)
  show ?case
  proof (cases "block_name b")
    case None
    with Cons.prems nn have "scan_blocks tools bs = Inr r"
      by (auto simp: read_prop_def block_name_def split: option.splits if_splits)
    from Cons.IH [OF this] None show ?thesis by (simp add: List.map_filter_simps)
  next
    case (Some n)
    with Cons.prems nn have "scan_blocks (push_unique tools n) bs = Inr r"
      by (auto simp: read_prop_def block_name_def split: option.splits if_splits)
    from Cons.IH [OF this] Some show ?thesis by (simp add: List.map_filter_simps)
  qed
qed

lemma v_toolUses_track_blocks:
  assumes "track_blocks st e = Inr st'"
  shows "v_toolUses st' = foldl push_unique (v_toolUses st) (block_names e)"
  using assms
  by (auto simp: track_blocks_def block_names_def ebind_eq_Inr dest: scan_blocks_foldl
      split: option.splits json.splits if_splits)

lemma v_toolUses_track_tool:
  "v_toolUses (track_tool st e) =
     foldl push_unique (v_toolUses st) (if contributes_tool e then [entry_tool_name e] else [])"
  by (simp add: track_tool_def)

lemma step_toolUses:
  assumes "step st e = Inr st'"
  shows "v_toolUses st' = foldl push_unique (v_toolUses st) (contributed e)"
proof -
  from assms obtain st1 st2 st3 where
    1: "count_tokens st e = Inr st1" and
    2: "first_user_message (count_message st1 e) e = Inr st2" and
    3: "track_blocks (track_tool (take_summary st2 e) e) e = Inr st3" and
    4: "st' = take_model st3 e"
    by (rule stepE)
  have "v_toolUses st2 = v_toolUses st"
    by (simp add: first_user_message_keeps(2) [OF 2] count_tokens_keeps(3) [OF 1])
  then show ?thesis
    by (simp add: 4 v_toolUses_track_blocks [OF 3] v_toolUses_track_tool contributed_def)
qed

lemma run_loop_toolUses:
  "run_loop st es = Inr st' \<Longrightarrow>
     v_toolUses st' = foldl push_unique (v_toolUses st) (contributed_names es)"
proof (induction es arbitrary: st)
  case Nil
  then show ?case by (simp add: contributed_names_def)
next
  case (Cons e es)
  from Cons.prems obtain st1 where s: "step st e = Inr st1" and r: "run_loop st1 es = Inr st'"
    by (auto split: sum.splits)
  show ?case
    using Cons.IH [OF r] step_toolUses [OF s] by (simp add: contributed_names_def)
qed

lemma set_foldl_push_unique:
  "set (foldl push_unique acc xs) = set acc \<union> set xs"
  by (induction xs arbitrary: acc) (auto simp: push_unique_def js_includes_def)

lemma foldl_push_unique_first_occurrences:
  "\<forall>x \<in> set xs. is_primitive x \<Longrightarrow>
     foldl push_unique acc xs = acc @ filter (\<lambda>x. x \<notin> set acc) (first_occurrences xs)"
proof (induction xs rule: rev_induct)
  case Nil
  then show ?case by (simp add: first_occurrences_def)
next
  case (snoc x xs)
  define r where "r = foldl push_unique acc xs"
  from snoc have IH: "r = acc @ filter (\<lambda>x. x \<notin> set acc) (first_occurrences xs)"
    and px: "is_primitive x" by (simp_all add: r_def)
  have fo: "first_occurrences (xs @ [x]) =
      (if x \<in> set xs then first_occurrences xs else first_occurrences xs @ [x])"
    by (simp add: first_occurrences_def)
  have mem: "x \<in> set r \<longleftrightarrow> x \<in> set acc \<or> x \<in> set xs"
    by (simp add: r_def set_foldl_push_unique)
  have "foldl push_unique acc (xs @ [x]) = push_unique r x"
    by (simp add: r_def)
  also have "\<dots> = (if x \<in> set r then r else r @ [x])"
    using px by (simp add: push_unique_def js_includes_def)
  also have "\<dots> = acc @ filter (\<lambda>x. x \<notin> set acc) (first_occurrences (xs @ [x]))"
    unfolding mem fo by (auto simp: IH)
  finally show ?case .
qed

lemma distinct_first_occurrences [simp]: "distinct (first_occurrences xs)"
  by (simp add: first_occurrences_def)

lemma set_first_occurrences [simp]: "set (first_occurrences xs) = set xs"
  by (simp add: first_occurrences_def)

lemma distinct_primitive_push_unique:
  "distinct (filter is_primitive acc) \<Longrightarrow> distinct (filter is_primitive (push_unique acc x))"
  by (auto simp: push_unique_def js_includes_def)

lemma distinct_primitive_foldl:
  "distinct (filter is_primitive acc) \<Longrightarrow>
     distinct (filter is_primitive (foldl push_unique acc xs))"
  by (induction xs arbitrary: acc) (simp_all add: distinct_primitive_push_unique)

lemma kept_names_snoc:
  "kept_names (xs @ [x]) = kept_names xs @ (if is_primitive x \<and> x \<in> set xs then [] else [x])"
proof -
  define P where "P = (\<lambda>ys i. \<not> (is_primitive (ys ! i) \<and> ys ! i \<in> set (take i ys)))"
  have f: "filter (P (xs @ [x])) [0..<length xs] = filter (P xs) [0..<length xs]"
    by (rule filter_cong) (simp_all add: P_def nth_append)
  have m: "map (\<lambda>i. (xs @ [x]) ! i) (filter (P xs) [0..<length xs])
         = map (\<lambda>i. xs ! i) (filter (P xs) [0..<length xs])"
    by (rule map_cong) (simp_all add: nth_append)
  have l: "P (xs @ [x]) (length xs) \<longleftrightarrow> \<not> (is_primitive x \<and> x \<in> set xs)"
    by (simp add: P_def)
  have k: "kept_names ys = map (\<lambda>i. ys ! i) (filter (P ys) [0..<length ys])" for ys
    by (simp add: kept_names_def P_def)
  have "kept_names (xs @ [x])
      = map (\<lambda>i. (xs @ [x]) ! i) (filter (P (xs @ [x])) ([0..<length xs] @ [length xs]))"
    by (simp add: k)
  also have "\<dots> = map (\<lambda>i. (xs @ [x]) ! i) (filter (P xs) [0..<length xs])
                  @ (if is_primitive x \<and> x \<in> set xs then [] else [x])"
    by (simp add: f l del: upt_Suc)
  also have "\<dots> = kept_names xs @ (if is_primitive x \<and> x \<in> set xs then [] else [x])"
    by (simp only: m k)
  finally show ?thesis .
qed

lemma foldl_push_unique_kept_names:
  "foldl push_unique [] xs = kept_names xs"
proof (induction xs rule: rev_induct)
  case Nil
  show ?case by (simp add: kept_names_def)
next
  case (snoc x xs)
  define r where "r = foldl push_unique [] xs"
  have s: "set r = set xs"
    by (simp add: r_def set_foldl_push_unique)
  from snoc have IH: "r = kept_names xs" by (simp add: r_def)
  have "foldl push_unique [] (xs @ [x]) = push_unique r x"
    by (simp add: r_def)
  also have "\<dots> = r @ (if is_primitive x \<and> x \<in> set xs then [] else [x])"
    by (simp add: push_unique_def js_includes_def s)
  also have "\<dots> = kept_names (xs @ [x])"
    by (simp only: IH kept_names_snoc)
  finally show ?case .
qed

lemma filter_structured_foldl:
  "filter is_structured (foldl push_unique acc xs)
     = filter is_structured acc @ filter is_structured xs"
  by (induction xs arbitrary: acc) (simp_all add: push_unique_def js_includes_def is_structured_def)

lemma filter_primitive_push_unique:
  "filter is_primitive (push_unique acc x)
     = (if is_primitive x then push_unique (filter is_primitive acc) x else filter is_primitive acc)"
  by (simp add: push_unique_def js_includes_def)

lemma filter_primitive_foldl:
  "filter is_primitive (foldl push_unique acc xs)
     = foldl push_unique (filter is_primitive acc) (filter is_primitive xs)"
  by (induction xs arbitrary: acc) (simp_all add: filter_primitive_push_unique)

lemma primitive_first_occurrences:
  "filter is_primitive (foldl push_unique [] xs) = first_occurrences (filter is_primitive xs)"
proof -
  have "\<forall>x \<in> set (filter is_primitive xs). is_primitive x" by simp
  from foldl_push_unique_first_occurrences [OF this, of "[]"]
  show ?thesis by (simp add: filter_primitive_foldl)
qed

lemma totalTokens_make_info:
  "totalTokens (make_info st entries proj filename) =
     js_add (totalInputTokens (make_info st entries proj filename))
            (totalOutputTokens (make_info st entries proj filename))"
  by (simp add: make_info_def)

lemma extractSessionInfoE:
  assumes "extractSessionInfo entries proj filename = Inr s"
  obtains st where "run_loop init_vars entries = Inr st" "s = make_info st entries proj filename"
  using assms by (auto simp: extractSessionInfo_def split: sum.splits)

lemma show_nat_nonempty: "show_nat n \<noteq> []"
  by (subst show_nat.simps) simp

lemma show_int_nonempty: "show_int i \<noteq> []"
  by (simp add: show_int_def show_nat_nonempty)

lemma stringify_at_nonempty: "stringify_at gap ind v \<noteq> []"
  by (cases v) (simp_all add: show_int_nonempty quote_def wrap_def)

lemma stringify_nonempty: "stringify v \<noteq> []"
  by (simp add: stringify_def stringify_at_nonempty)

lemma summary_of_nonempty: "truthy_val sv \<Longrightarrow> summary_of sv \<noteq> []"
  by (auto simp: summary_of_def stringify_nonempty split: json.splits option.splits)

lemma entry_summary_text_nonempty: "has_summary e \<Longrightarrow> entry_summary_text e \<noteq> []"
  by (cases "get e (ascii ''summary'')")
    (simp_all add: has_summary_def entry_summary_text_def summary_of_nonempty)

lemma last_filter_has: "filter P xs \<noteq> [] \<Longrightarrow> P (last (filter P xs))"
  using last_in_set [of "filter P xs"] by simp

lemma extract_summary:
  assumes "extractSessionInfo entries proj filename = Inr s"
  shows "summary s =
     (if filter has_summary entries \<noteq> [] then entry_summary_text (last (filter has_summary entries))
      else if first_captured entries \<noteq> [] then first_captured entries
      else ascii ''No summary'')"
proof -
  from assms obtain st where r: "run_loop init_vars entries = Inr st"
    and s: "s = make_info st entries proj filename"
    by (rule extractSessionInfoE)
  have sm: "v_summary st =
      (if filter has_summary entries = [] then []
       else entry_summary_text (last (filter has_summary entries)))"
    using run_loop_summary [OF r] by (simp add: init_vars_def)
  have fm: "v_firstUserMessage st = first_captured entries"
    using run_loop_firstUserMessage [OF r] by (simp add: init_vars_def)
  have ne: "entry_summary_text (last (filter has_summary entries)) \<noteq> []"
    if "filter has_summary entries \<noteq> []"
    using last_filter_has [OF that] by (rule entry_summary_text_nonempty)
  show ?thesis
    using ne by (simp add: s make_info_def summary_text_def sm fm)
qed

section \<open>Token totals\<close>




lemma count_tokens_counted_usage:
  "count_tokens st e = (case counted_usage e of None \<Rightarrow> Inr st | Some u \<Rightarrow> add_usage st u)"
  by (auto simp: count_tokens_def entry_usage_def counted_usage_def js_or_def split: option.splits)


























section \<open>The aggregator returns on plain records\<close>

text \<open>
  The aggregator throws on some records (a \<^verbatim>\<open>null\<close> block, a token count that does not
  convert to a primitive), so the properties below are stated for the summary it
  returns. On a sequence of plain records it does return one.
\<close>

lemma filter_type_plain:
  "list_all plain_block blocks \<Longrightarrow>
     \<exists>ts. filter_type t blocks = Inr ts \<and> list_all plain_block ts"
  by (induction blocks) (auto simp: read_prop_def plain_block_def)

lemma text_or_empty_plain: "plain_block x \<Longrightarrow> \<exists>s. text_or_empty x = JStr s"
proof (cases "get x (ascii ''text'')")
  case None
  then show ?thesis by (simp add: text_or_empty_def)
next
  case (Some t)
  assume "plain_block x"
  with Some obtain s where "t = JStr s"
    by (cases t) (simp_all add: plain_block_def)
  with Some show ?thesis by (simp add: text_or_empty_def)
qed

lemma js_join_plain:
  "list_all plain_block ts \<Longrightarrow> \<exists>r. js_join sep (map text_or_empty ts) = Inr r"
proof (induction ts rule: induct_list012)
  case 1
  then show ?case by simp
next
  case (2 x)
  then have "plain_block x" by simp
  from text_or_empty_plain [OF this] obtain s where "text_or_empty x = JStr s" ..
  then show ?case by simp
next
  case (3 x y zs)
  then obtain r where r: "js_join sep (map text_or_empty (y # zs)) = Inr r" by auto
  from 3 have "plain_block x" by simp
  from text_or_empty_plain [OF this] obtain s where "text_or_empty x = JStr s" ..
  with r show ?case by simp
qed

lemma scan_blocks_plain:
  "list_all plain_block blocks \<Longrightarrow> \<exists>r. scan_blocks tools blocks = Inr r"
  by (induction blocks arbitrary: tools)
    (auto simp: read_prop_def plain_block_def split: option.splits)

lemma user_message_text_plain:
  assumes "case get m (ascii ''content'') of Some (JArr blocks) \<Rightarrow> list_all plain_block blocks | _ \<Rightarrow> True"
  shows "\<exists>t. user_message_text m = Inr t"
proof (cases "get m (ascii ''content'')")
  case None
  then show ?thesis by (cases m) (simp_all add: user_message_text_def)
next
  case (Some c)
  show ?thesis
  proof (cases c)
    case (JArr blocks)
    with assms Some have "list_all plain_block blocks" by simp
    from filter_type_plain [OF this, of "''text''"] obtain ts where
      "filter_type ''text'' blocks = Inr ts" "list_all plain_block ts" by blast
    with js_join_plain [of ts "ascii '' ''"] Some JArr show ?thesis
      by (cases m) (auto simp: user_message_text_def)
  qed (use Some in \<open>cases m; simp add: user_message_text_def\<close>)+
qed

lemma add_value_count_returns: "is_count v \<Longrightarrow> \<exists>p. add_value acc v = Inr p"
  by (cases v) (simp_all add: add_value_def)

lemma count_tokens_plain:
  assumes "integer_usage e"
  shows "\<exists>st1. count_tokens st e = Inr st1"
proof (cases "counted_usage e")
  case None
  then show ?thesis by (simp add: count_tokens_counted_usage)
next
  case (Some u)
  with assms have c: "is_count (usage_field u ''input_tokens'')"
    "is_count (usage_field u ''output_tokens'')"
    "is_count (usage_field u ''cache_creation_input_tokens'')"
    "is_count (usage_field u ''cache_read_input_tokens'')"
    by (simp_all add: integer_usage_def)
  from add_value_count_returns [OF c(1)] obtain p1 where
    p1: "add_value (v_totalInputTokens st) (usage_field u ''input_tokens'') = Inr p1" ..
  from add_value_count_returns [OF c(2)] obtain q where
    q: "add_value (v_totalOutputTokens st) (usage_field u ''output_tokens'') = Inr q" ..
  from add_value_count_returns [OF c(3)] obtain p2 where
    p2: "add_value p1 (usage_field u ''cache_creation_input_tokens'') = Inr p2" ..
  from add_value_count_returns [OF c(4)] obtain p3 where
    p3: "add_value p2 (usage_field u ''cache_read_input_tokens'') = Inr p3" ..
  show ?thesis
    by (simp add: count_tokens_counted_usage Some add_usage_def p1 q p2 p3)
qed

lemma step_plain:
  assumes "plain_entry e"
  shows "\<exists>st'. step st e = Inr st'"
proof -
  from assms have nn: "e \<noteq> JNull" and nu: "integer_usage e"
    and bl: "case opt_get (get e (ascii ''message'')) (ascii ''content'') of
               Some (JArr blocks) \<Rightarrow> list_all plain_block blocks | _ \<Rightarrow> True"
    by (simp_all add: plain_entry_def)
  from count_tokens_plain [OF nu] obtain st1 where 1: "count_tokens st e = Inr st1" ..
  have "\<exists>st2. first_user_message (count_message st1 e) e = Inr st2"
  proof (cases "get e (ascii ''message'')")
    case None
    then show ?thesis by (simp add: first_user_message_def)
  next
    case (Some m)
    with bl have "case get m (ascii ''content'') of
        Some (JArr blocks) \<Rightarrow> list_all plain_block blocks | _ \<Rightarrow> True"
      by (cases m) simp_all
    from user_message_text_plain [OF this] obtain t where "user_message_text m = Inr t" ..
    with Some show ?thesis by (simp add: first_user_message_def)
  qed
  then obtain st2 where 2: "first_user_message (count_message st1 e) e = Inr st2" ..
  have "\<exists>st3. track_blocks (track_tool (take_summary st2 e) e) e = Inr st3"
  proof (cases "opt_get (get e (ascii ''message'')) (ascii ''content'')")
    case None
    then show ?thesis by (simp add: track_blocks_def)
  next
    case (Some c)
    show ?thesis
    proof (cases c)
      case (JArr blocks)
      with bl Some have "list_all plain_block blocks" by simp
      from scan_blocks_plain [OF this, of "v_toolUses (track_tool (take_summary st2 e) e)"]
      obtain r where "scan_blocks (v_toolUses (track_tool (take_summary st2 e) e)) blocks = Inr r" ..
      with Some JArr show ?thesis
        by (simp add: track_blocks_def)
    qed (use Some in \<open>simp_all add: track_blocks_def\<close>)
  qed
  then obtain st3 where 3: "track_blocks (track_tool (take_summary st2 e) e) e = Inr st3" ..
  have "step st e = Inr (take_model st3 e)"
    using nn 1 2 3 by (simp add: step_def read_prop_def)
  then show ?thesis ..
qed

lemma run_loop_plain:
  "list_all plain_entry es \<Longrightarrow> \<exists>st'. run_loop st es = Inr st'"
proof (induction es arbitrary: st)
  case Nil
  then show ?case by simp
next
  case (Cons e es)
  then have "plain_entry e" by simp
  from step_plain [OF this] obtain st1 where "step st e = Inr st1" ..
  with Cons.IH [of st1] Cons.prems show ?case by simp
qed

lemma extractSessionInfo_plain:
  "list_all plain_entry entries \<Longrightarrow> \<exists>s. extractSessionInfo entries proj filename = Inr s"
  using run_loop_plain [of entries init_vars]
  by (auto simp: extractSessionInfo_def)

section \<open>Formatting a tool result\<close>

lemma result_string_result:
  "get entry (ascii ''result'') = Some (JStr r) \<Longrightarrow> r \<noteq> [] \<Longrightarrow> result_string entry = r"
  by (simp add: result_string_def js_or_def)

text \<open>
  C7. Formatting a record of type \<^verbatim>\<open>tool_result\<close> whose \<^verbatim>\<open>result\<close> is a string of
  600 code units gives the result label, the first 500 code units and the marker
  \<^verbatim>\<open>...\<close>; a result string of 400 code units follows the label unchanged, with no
  marker.
\<close>

theorem format_tool_result_truncates:
  assumes "get entry (ascii ''type'') = Some (JStr (ascii ''tool_result''))"
    and "get entry (ascii ''result'') = Some (JStr r)"
  shows "(length r = 600 \<longrightarrow>
            formatEntryContent entry = Inr (Text (result_label @ take 500 r @ ascii ''...'')))
       \<and> (length r = 400 \<longrightarrow> formatEntryContent entry = Inr (Text (result_label @ r)))"
proof -
  have fmt: "formatEntryContent entry = Inr (format_tool_result entry)"
    using assms(1) by (simp add: formatEntryContent_def read_prop_get [OF assms(1)])
  have long: "formatEntryContent entry = Inr (Text (result_label @ take 500 r @ ascii ''...''))"
    if "length r = 600"
  proof -
    from that have "r \<noteq> []" by auto
    then have "result_string entry = r" using assms(2) by (simp add: result_string_result)
    with that show ?thesis by (simp add: fmt format_tool_result_def)
  qed
  have short: "formatEntryContent entry = Inr (Text (result_label @ r))"
    if "length r = 400"
  proof -
    from that have "r \<noteq> []" by auto
    then have "result_string entry = r" using assms(2) by (simp add: result_string_result)
    with that show ?thesis by (simp add: fmt format_tool_result_def)
  qed
  from long short show ?thesis by blast
qed

theorem format_tool_result_truncates_witness:
  "formatEntryContent (obj [(''type'', str ''tool_result''), (''result'', JStr (replicate 600 0x61))])
     = Inr (Text (result_label @ replicate 500 0x61 @ ascii ''...''))
   \<and> formatEntryContent (obj [(''type'', str ''tool_result''), (''result'', JStr (replicate 400 0x61))])
     = Inr (Text (result_label @ replicate 400 0x61))"
  using format_tool_result_truncates
          [of "obj [(''type'', str ''tool_result''), (''result'', JStr (replicate 600 0x61))]"
              "replicate 600 0x61"]
        format_tool_result_truncates
          [of "obj [(''type'', str ''tool_result''), (''result'', JStr (replicate 400 0x61))]"
              "replicate 400 0x61"]
  by (simp add: obj_def str_def)

section \<open>The formatter on malformed blocks\<close>

text \<open>
  C4. The formatter is claimed to return a value for every record. It does not: an
  assistant record whose content has a \<^verbatim>\<open>tool_use\<close> block without \<^verbatim>\<open>input\<close> makes
  \<^verbatim>\<open>JSON.stringify(block.input, null, 2)\<close> \<^verbatim>\<open>undefined\<close>, and a \<^verbatim>\<open>null\<close> block in a
  user record's content makes \<^verbatim>\<open>c.type\<close> a read on \<^verbatim>\<open>null\<close>; both throw a TypeError.
  The entry-level \<^verbatim>\<open>tool_use\<close> branch defaults a missing input to \<^verbatim>\<open>{}\<close> and returns.
\<close>

theorem formatEntryContent_throws:
  "formatEntryContent
     (obj [(''type'', str ''assistant''),
           (''message'', obj [(''content'',
              JArr [obj [(''type'', str ''tool_use''), (''name'', str ''grep'')]])])])
   = Inl TypeError
   \<and> formatEntryContent
     (obj [(''type'', str ''user''), (''message'', obj [(''content'', JArr [JNull])])])
   = Inl TypeError
   \<and> formatEntryContent (obj [(''type'', str ''tool_use''), (''name'', str ''grep'')])
   = Inr (Text (tool_label @ ascii ''grep'' @ input_label @ ascii ''{}''))"
  by (simp add: obj_def str_def formatEntryContent_def read_prop_def format_assistant_def
      assistant_message_part_def assistant_part_def tool_use_part_def format_user_def
      user_message_part_def format_tool_use_def js_or_def stringify2_def wrap_def
      ascii_append [symmetric])

section \<open>The decoder\<close>

lemma truthy_parse_or_null: "truthy_val (parse_or_null parse line) = truthy (parse line)"
  by (cases "parse line") (simp_all add: parse_or_null_def)

text \<open>
  C2, as stated, fails: the text with the two lines \<^verbatim>\<open>0\<close> and \<^verbatim>\<open>{}\<close> has two
  syntactically valid lines and no invalid one, and the decoder returns one record,
  because \<^verbatim>\<open>filter(Boolean)\<close> also removes the parsed value \<^verbatim>\<open>0\<close>.
\<close>

theorem decode_text_drops_valid_line:
  "length (spec_valid_lines parse_sample (ascii ''0'' @ [0x0A] @ ascii ''{}'')) = 2
   \<and> decode_text parse_sample (ascii ''0'' @ [0x0A] @ ascii ''{}'') = [JObj []]"
  by (simp add: spec_valid_lines_def decode_text_def content_lines_def split_nl_def trim_def
      is_ws_def parse_sample_def parse_or_null_def ascii_def)

text \<open>
  C2, amended. For every file text the decoder returns, in their original order, the
  parsed values of exactly those non-blank lines of the trimmed text that parse and
  whose value is truthy: a line that does not parse and a line whose value is
  \<^verbatim>\<open>null\<close>, \<^verbatim>\<open>false\<close>, \<^verbatim>\<open>0\<close> or the empty string are dropped alike.
\<close>

theorem decode_text_truthy_lines:
  "decode_text parse content =
     map (parse_or_null parse) (filter (\<lambda>line. truthy (parse line)) (content_lines content))
   \<and> length (decode_text parse content) =
     length (filter (\<lambda>line. truthy (parse line)) (content_lines content))"
proof -
  have "decode_text parse content =
     map (parse_or_null parse) (filter (\<lambda>line. truthy (parse line)) (content_lines content))"
    by (simp add: decode_text_def filter_map comp_def truthy_parse_or_null)
  then show ?thesis by simp
qed

section \<open>Queries on a missing root or session\<close>

text \<open>
  C8. \<^verbatim>\<open>getAllSessions\<close> returns the empty list, and does not throw, when the root
  directory is missing and when it exists and is empty; \<^verbatim>\<open>getSessionDetails\<close> returns
  \<^verbatim>\<open>null\<close>, and does not throw, when the session file does not exist.
\<close>

theorem queries_degrade:
  "(fs root = None \<longrightarrow> getAllSessions pj parse fs root = Inr [])
   \<and> (fs root = Some (Dir [], mtime, sz) \<longrightarrow> getAllSessions pj parse fs root = Inr [])
   \<and> (fs (pj [root, proj, sessionId @ ascii ''.jsonl'']) = None \<longrightarrow>
        getSessionDetails pj parse fs root proj sessionId = Inr None)"
  by (simp add: getAllSessions_def getSessionDetails_def newest_first_def)

theorem queries_degrade_witness:
  "getAllSessions join_slash parse_sample (\<lambda>p. None) (ascii ''/r'') = Inr []
   \<and> getAllSessions join_slash parse_sample
        (\<lambda>p. if p = ascii ''/r'' then Some (Dir [], 0, 0) else None) (ascii ''/r'') = Inr []
   \<and> getSessionDetails join_slash parse_sample
        (\<lambda>p. if p = ascii ''/r'' then Some (Dir [], 0, 0) else None)
        (ascii ''/r'') (ascii ''-p'') (ascii ''s1'') = Inr None"
  using queries_degrade [of "\<lambda>p. None" "ascii ''/r''" join_slash parse_sample 0 0 "ascii ''-p''" "ascii ''s1''"]
        queries_degrade [of "\<lambda>p. if p = ascii ''/r'' then Some (Dir [], 0, 0) else None"
                            "ascii ''/r''" join_slash parse_sample 0 0 "ascii ''-p''" "ascii ''s1''"]
  by (simp add: join_slash_def ascii_def)

section \<open>The summary text\<close>

text \<open>
  C5. The text of a summary record (a record of type \<^verbatim>\<open>summary\<close> with a truthy
  \<^verbatim>\<open>summary\<close> field), when there is one, is the summary text whatever the user
  messages are; without one the captured first user message is used, and when that is
  empty too the literal \<^verbatim>\<open>No summary\<close>. A session with the user message
  \<^verbatim>\<open>hello\<close> and no summary record gives \<^verbatim>\<open>hello\<close>; the same session followed by a
  summary record with text \<^verbatim>\<open>S\<close> gives \<^verbatim>\<open>S\<close>.
\<close>

theorem summary_precedence:
  "(extractSessionInfo entries proj filename = Inr s \<longrightarrow>
      (filter has_summary entries \<noteq> [] \<longrightarrow>
         summary s = entry_summary_text (last (filter has_summary entries)))
      \<and> (filter has_summary entries = [] \<and> first_captured entries \<noteq> [] \<longrightarrow>
           summary s = first_captured entries)
      \<and> (filter has_summary entries = [] \<and> first_captured entries = [] \<longrightarrow>
           summary s = ascii ''No summary''))
   \<and> (\<exists>s1. extractSessionInfo [user_hello] proj filename = Inr s1 \<and> summary s1 = ascii ''hello'')
   \<and> (\<exists>s2. extractSessionInfo [user_hello, summary_S] proj filename = Inr s2
             \<and> summary s2 = ascii ''S'')"
proof -
  have ex1: "\<exists>s1. extractSessionInfo [user_hello] proj filename = Inr s1 \<and> summary s1 = ascii ''hello''"
    by (simp add: user_hello_def obj_def str_def aggregator_defs)
  have ex2: "\<exists>s2. extractSessionInfo [user_hello, summary_S] proj filename = Inr s2
             \<and> summary s2 = ascii ''S''"
    by (simp add: user_hello_def summary_S_def obj_def str_def aggregator_defs)
  have gen: "extractSessionInfo entries proj filename = Inr s \<longrightarrow>
      (filter has_summary entries \<noteq> [] \<longrightarrow>
         summary s = entry_summary_text (last (filter has_summary entries)))
      \<and> (filter has_summary entries = [] \<and> first_captured entries \<noteq> [] \<longrightarrow>
           summary s = first_captured entries)
      \<and> (filter has_summary entries = [] \<and> first_captured entries = [] \<longrightarrow>
           summary s = ascii ''No summary'')"
  proof
    assume "extractSessionInfo entries proj filename = Inr s"
    from extract_summary [OF this] show "(filter has_summary entries \<noteq> [] \<longrightarrow>
         summary s = entry_summary_text (last (filter has_summary entries)))
      \<and> (filter has_summary entries = [] \<and> first_captured entries \<noteq> [] \<longrightarrow>
           summary s = first_captured entries)
      \<and> (filter has_summary entries = [] \<and> first_captured entries = [] \<longrightarrow>
           summary s = ascii ''No summary'')"
      by simp
  qed
  show ?thesis
    by (rule conjI [OF gen conjI [OF ex1 ex2]])
qed

theorem summary_precedence_witness:
  "(\<exists>s. extractSessionInfo [summary_S, user_hello] [] [] = Inr s
        \<and> filter has_summary [summary_S, user_hello] \<noteq> []
        \<and> summary s = ascii ''S'')
   \<and> (\<exists>s. extractSessionInfo [user_empty, user_hello] [] [] = Inr s
        \<and> filter has_summary [user_empty, user_hello] = []
        \<and> first_captured [user_empty, user_hello] \<noteq> []
        \<and> summary s = ascii ''hello'')
   \<and> (\<exists>s. extractSessionInfo [user_empty] [] [] = Inr s
        \<and> filter has_summary [user_empty] = [] \<and> first_captured [user_empty] = []
        \<and> summary s = ascii ''No summary'')"
proof -
  have f1: "filter has_summary [summary_S, user_hello] = [summary_S]"
    by (simp add: has_summary_def summary_S_def user_hello_def obj_def str_def)
  have "\<exists>s. extractSessionInfo [summary_S, user_hello] [] [] = Inr s"
    by (simp add: user_hello_def summary_S_def obj_def str_def aggregator_defs)
  then obtain s1 where s1: "extractSessionInfo [summary_S, user_hello] [] [] = Inr s1" ..
  have t1: "entry_summary_text summary_S = ascii ''S''"
    by (simp add: entry_summary_text_def summary_S_def obj_def str_def summary_of_def)
  from summary_precedence [of "[summary_S, user_hello]" "[]" "[]" s1] s1 f1 t1
  have r1: "summary s1 = ascii ''S''"
    by simp
  have f2: "filter has_summary [user_empty, user_hello] = []"
    by (simp add: has_summary_def user_empty_def user_hello_def obj_def str_def)
  have c2: "first_captured [user_empty, user_hello] = ascii ''hello''"
    by (simp add: has_user_message_def user_text_def user_message_text_def
        user_empty_def user_hello_def obj_def str_def)
  have "\<exists>s. extractSessionInfo [user_empty, user_hello] [] [] = Inr s"
    by (simp add: user_empty_def user_hello_def obj_def str_def aggregator_defs)
  then obtain s2 where s2: "extractSessionInfo [user_empty, user_hello] [] [] = Inr s2" ..
  from summary_precedence [of "[user_empty, user_hello]" "[]" "[]" s2] s2 f2 c2
  have r2: "summary s2 = ascii ''hello''"
    by simp
  have f3: "filter has_summary [user_empty] = []"
    by (simp add: has_summary_def user_empty_def obj_def str_def)
  have c3: "first_captured [user_empty] = []"
    by (simp add: has_user_message_def user_text_def user_message_text_def
        user_empty_def obj_def str_def)
  have "\<exists>s. extractSessionInfo [user_empty] [] [] = Inr s"
    by (simp add: user_empty_def obj_def str_def aggregator_defs)
  then obtain s3 where s3: "extractSessionInfo [user_empty] [] [] = Inr s3" ..
  from summary_precedence [of "[user_empty]" "[]" "[]" s3] s3 f3 c3
  have r3: "summary s3 = ascii ''No summary''"
    by simp
  from s1 f1 r1 s2 f2 c2 r2 s3 f3 c3 r3 show ?thesis by simp
qed

text \<open>
  C10. When a record sequence has summary records with a truthy \<^verbatim>\<open>summary\<close> field, the
  summary text is the one of the last of them; a record of type \<^verbatim>\<open>summary\<close> whose
  \<^verbatim>\<open>summary\<close> field is absent or falsy leaves the captured summary as it was.
\<close>

theorem last_summary_wins:
  "(extractSessionInfo entries proj filename = Inr s \<and> filter has_summary entries \<noteq> [] \<longrightarrow>
      summary s = entry_summary_text (last (filter has_summary entries)))
   \<and> (is_lit (get entry (ascii ''type'')) ''summary'' \<and> \<not> truthy (get entry (ascii ''summary''))
        \<and> step st entry = Inr st' \<longrightarrow> v_summary st' = v_summary st)"
proof
  show "extractSessionInfo entries proj filename = Inr s \<and> filter has_summary entries \<noteq> [] \<longrightarrow>
      summary s = entry_summary_text (last (filter has_summary entries))"
  proof
    assume h: "extractSessionInfo entries proj filename = Inr s \<and> filter has_summary entries \<noteq> []"
    then have "extractSessionInfo entries proj filename = Inr s" ..
    from extract_summary [OF this] h
    show "summary s = entry_summary_text (last (filter has_summary entries))" by simp
  qed
  show "is_lit (get entry (ascii ''type'')) ''summary'' \<and> \<not> truthy (get entry (ascii ''summary''))
        \<and> step st entry = Inr st' \<longrightarrow> v_summary st' = v_summary st"
  proof
    assume h: "is_lit (get entry (ascii ''type'')) ''summary'' \<and> \<not> truthy (get entry (ascii ''summary''))
        \<and> step st entry = Inr st'"
    then have "step st entry = Inr st'" by simp
    from step_summary [OF this] h show "v_summary st' = v_summary st"
      by (simp add: has_summary_def)
  qed
qed

theorem last_summary_wins_witness:
  "(\<exists>s. extractSessionInfo [summary_S, summary_missing, summary_T, summary_missing] [] [] = Inr s
        \<and> summary s = ascii ''T'')
   \<and> (\<exists>st'. step init_vars summary_missing = Inr st' \<and> v_summary st' = v_summary init_vars)"
proof -
  let ?es = "[summary_S, summary_missing, summary_T, summary_missing]"
  have f: "filter has_summary ?es = [summary_S, summary_T]"
    by (simp add: has_summary_def summary_S_def summary_T_def summary_missing_def obj_def str_def)
  have "\<exists>s. extractSessionInfo ?es [] [] = Inr s"
    by (simp add: summary_S_def summary_T_def summary_missing_def obj_def str_def aggregator_defs)
  then obtain s where s: "extractSessionInfo ?es [] [] = Inr s" ..
  have "\<exists>st'. step init_vars summary_missing = Inr st'"
    by (simp add: summary_missing_def obj_def str_def aggregator_defs)
  then obtain st' where st: "step init_vars summary_missing = Inr st'" ..
  have m: "is_lit (get summary_missing (ascii ''type'')) ''summary''
      \<and> \<not> truthy (get summary_missing (ascii ''summary''))"
    by (simp add: summary_missing_def obj_def str_def)
  have t: "entry_summary_text summary_T = ascii ''T''"
    by (simp add: entry_summary_text_def summary_T_def obj_def str_def summary_of_def)
  from last_summary_wins [of ?es "[]" "[]" s summary_missing init_vars st'] s f st m
  have "summary s = entry_summary_text summary_T" "v_summary st' = v_summary init_vars"
    by simp_all
  with s st t show ?thesis by simp
qed

section \<open>The first user message\<close>

lemma filter_type_no_null:
  "JNull \<notin> set blocks \<Longrightarrow>
     filter_type t blocks = Inr (filter (\<lambda>c. is_lit (get c (ascii ''type'')) t) blocks)"
  by (induction blocks) (auto simp: read_prop_def)

lemma length_user_text: "length (user_text e) \<le> 200"
  by (simp add: user_text_def split: option.splits sum.splits)

lemma length_first_captured: "length (first_captured es) \<le> 200"
  by (induction es) (simp_all add: length_user_text)

lemma user_text_shapes:
  assumes "get entry (ascii ''message'') = Some m"
  shows "m = JStr t \<longrightarrow> user_text entry = take 200 t"
    and "get m (ascii ''content'') = Some (JStr t) \<and> t \<noteq> [] \<longrightarrow> user_text entry = take 200 t"
    and "get m (ascii ''content'') = Some (JArr blocks) \<and> JNull \<notin> set blocks
         \<and> js_join (ascii '' '') (map text_or_empty (filter is_text_block blocks)) = Inr t \<longrightarrow>
           user_text entry = take 200 t"
    and "get m (ascii ''content'') = Some c \<and> truthy_val c \<and> \<not> is_string (Some c)
         \<and> \<not> is_array (Some c) \<longrightarrow> user_text entry = take 200 (stringify c)"
    and "\<not> is_string (Some m) \<and> \<not> truthy (get m (ascii ''content'')) \<longrightarrow>
           user_text entry = take 200 (stringify m)"
proof -
  show "m = JStr t \<longrightarrow> user_text entry = take 200 t"
    using assms by (simp add: user_text_def user_message_text_def)
  show "get m (ascii ''content'') = Some (JStr t) \<and> t \<noteq> [] \<longrightarrow> user_text entry = take 200 t"
    using assms by (cases m) (simp_all add: user_text_def user_message_text_def)
  show "get m (ascii ''content'') = Some (JArr blocks) \<and> JNull \<notin> set blocks
         \<and> js_join (ascii '' '') (map text_or_empty (filter is_text_block blocks)) = Inr t \<longrightarrow>
           user_text entry = take 200 t"
    using assms
    by (cases m) (simp_all add: user_text_def user_message_text_def filter_type_no_null is_text_block_def [abs_def])
  show "get m (ascii ''content'') = Some c \<and> truthy_val c \<and> \<not> is_string (Some c)
         \<and> \<not> is_array (Some c) \<longrightarrow> user_text entry = take 200 (stringify c)"
    using assms
    by (cases m; cases c) (simp_all add: user_text_def user_message_text_def)
  show "\<not> is_string (Some m) \<and> \<not> truthy (get m (ascii ''content'')) \<longrightarrow>
           user_text entry = take 200 (stringify m)"
    using assms
    by (cases m) (auto simp: user_text_def user_message_text_def split: option.splits)
qed

text \<open>
  C9, as stated, fails: the message is not always taken from the first record of type
  \<^verbatim>\<open>user\<close>. When the first user record has an empty array as content its text is
  empty, the guard \<^verbatim>\<open>!firstUserMessage\<close> stays open, and the text of the second user
  record is captured.
\<close>

theorem first_user_record_skipped:
  "spec_first_user_text [user_empty, user_second] = []
   \<and> map_sum id summary (extractSessionInfo [user_empty, user_second] [] []) = Inr (ascii ''second'')"
  by (simp add: spec_first_user_text_def user_text_def user_empty_def user_second_def obj_def str_def
      aggregator_defs)

text \<open>
  C9, amended. When the loop of the aggregator returns, the first user message is the
  text of the first record of type \<^verbatim>\<open>user\<close> that has a truthy \<^verbatim>\<open>message\<close> and a
  non-empty text (a user record before it without a message, or with an empty text, is
  passed over), and it is at most 200 code units long. The text of a record with a
  message is: a string message, cut to 200; a non-empty string content, cut to 200;
  array content without \<^verbatim>\<open>null\<close> blocks, filtered to the blocks of type \<^verbatim>\<open>text\<close>,
  their texts (\<^verbatim>\<open>''\<close> for a falsy one) joined with one space when the join returns,
  cut to 200; any other truthy content, stringified and cut to 200; and, for a message
  that is not a string and whose content is absent or falsy (the empty string
  included), the whole message stringified and cut to 200.
\<close>

theorem first_user_message_captured:
  "(run_loop init_vars entries = Inr st \<longrightarrow>
      v_firstUserMessage st = first_captured entries \<and> length (v_firstUserMessage st) \<le> 200)
   \<and> (get entry (ascii ''message'') = Some m \<longrightarrow>
        (m = JStr t \<longrightarrow> user_text entry = take 200 t)
        \<and> (get m (ascii ''content'') = Some (JStr t) \<and> t \<noteq> [] \<longrightarrow> user_text entry = take 200 t)
        \<and> (get m (ascii ''content'') = Some (JArr blocks) \<and> JNull \<notin> set blocks
            \<and> js_join (ascii '' '') (map text_or_empty (filter is_text_block blocks)) = Inr t \<longrightarrow>
              user_text entry = take 200 t)
        \<and> (get m (ascii ''content'') = Some c \<and> truthy_val c \<and> \<not> is_string (Some c)
            \<and> \<not> is_array (Some c) \<longrightarrow> user_text entry = take 200 (stringify c))
        \<and> (\<not> is_string (Some m) \<and> \<not> truthy (get m (ascii ''content'')) \<longrightarrow>
              user_text entry = take 200 (stringify m)))"
proof (intro conjI impI)
  assume r: "run_loop init_vars entries = Inr st"
  from run_loop_firstUserMessage [OF r]
  show fc: "v_firstUserMessage st = first_captured entries"
    by (simp add: init_vars_def)
  show "length (v_firstUserMessage st) \<le> 200"
    by (simp add: fc length_first_captured)
next
  assume m: "get entry (ascii ''message'') = Some m"
  { assume "m = JStr t"
    with user_text_shapes(1) [OF m, where t = t] show "user_text entry = take 200 t" by simp }
  { assume "get m (ascii ''content'') = Some (JStr t) \<and> t \<noteq> []"
    with user_text_shapes(2) [OF m, where t = t] show "user_text entry = take 200 t" by simp }
  { assume "get m (ascii ''content'') = Some (JArr blocks) \<and> JNull \<notin> set blocks
            \<and> js_join (ascii '' '') (map text_or_empty (filter is_text_block blocks)) = Inr t"
    with user_text_shapes(3) [OF m, where blocks = blocks and t = t] show "user_text entry = take 200 t" by simp }
  { assume "get m (ascii ''content'') = Some c \<and> truthy_val c \<and> \<not> is_string (Some c)
            \<and> \<not> is_array (Some c)"
    with user_text_shapes(4) [OF m, where c = c] show "user_text entry = take 200 (stringify c)" by simp }
  { assume "\<not> is_string (Some m) \<and> \<not> truthy (get m (ascii ''content''))"
    with user_text_shapes(5) [OF m] show "user_text entry = take 200 (stringify m)" by simp }
qed

theorem first_user_message_captured_witness:
  "(\<exists>st. run_loop init_vars [user_empty, user_blocks, user_second] = Inr st
         \<and> v_firstUserMessage st = ascii ''a b'')
   \<and> user_text user_second = ascii ''second''
   \<and> user_text user_hello = ascii ''hello''
   \<and> user_text user_blocks = ascii ''a b''
   \<and> user_text user_number = ascii ''5''
   \<and> user_text user_bare = ascii ''{}''
   \<and> user_text user_blank = take 200 (stringify (obj [(''content'', str [])]))"
proof -
  let ?es = "[user_empty, user_blocks, user_second]"
  let ?bs = "[obj [(''type'', str ''text''), (''text'', str ''a'')], obj [(''type'', str ''image'')],
              obj [(''type'', str ''text''), (''text'', str ''b'')]]"
  have "\<exists>st. run_loop init_vars ?es = Inr st"
    by (simp add: record_defs aggregator_defs)
  then obtain st where st: "run_loop init_vars ?es = Inr st" ..
  have j: "js_join (ascii '' '') (map text_or_empty (filter is_text_block ?bs)) = Inr (ascii ''a b'')"
    by (simp add: is_text_block_def text_or_empty_def obj_def str_def ascii_append [symmetric])
  have fc: "first_captured ?es = ascii ''a b''"
    by (simp add: has_user_message_def user_text_def user_message_text_def text_or_empty_def
        read_prop_def record_defs ascii_append [symmetric])
  from first_user_message_captured [of ?es st user_second "str ''second''" "ascii ''second''"] st fc
  have 1: "v_firstUserMessage st = ascii ''a b''" "user_text user_second = ascii ''second''"
    by (simp_all add: record_defs)
  from first_user_message_captured
         [of "[]" init_vars user_hello "obj [(''role'', str ''user''), (''content'', str ''hello'')]"
             "ascii ''hello''"]
  have 2: "user_text user_hello = ascii ''hello''"
    by (simp add: record_defs)
  from first_user_message_captured
         [of "[]" init_vars user_blocks "obj [(''content'', JArr ?bs)]" "ascii ''a b''" ?bs] j
  have 3: "user_text user_blocks = ascii ''a b''"
    by (simp add: record_defs)
  from first_user_message_captured
         [of "[]" init_vars user_number "obj [(''content'', JNum 5)]" _ _ "JNum 5"]
  have 4: "user_text user_number = ascii ''5''"
    by (simp add: record_defs stringify_def show_int_def show_nat.simps digit_def ascii_def)
  from first_user_message_captured [of "[]" init_vars user_bare "obj []"]
  have 5: "user_text user_bare = ascii ''{}''"
    by (simp add: record_defs stringify_def wrap_def ascii_append [symmetric])
  from first_user_message_captured [of "[]" init_vars user_blank "obj [(''content'', str [])]"]
  have 6: "user_text user_blank = take 200 (stringify (obj [(''content'', str [])]))"
    by (simp add: record_defs)
  from st 1 2 3 4 5 6 show ?thesis by simp
qed

section \<open>The tool-name list\<close>

lemma extract_toolUses:
  assumes "extractSessionInfo entries proj filename = Inr s"
  shows "toolUses s = foldl push_unique [] (contributed_names entries)"
proof -
  from assms obtain st where r: "run_loop init_vars entries = Inr st"
    and s: "s = make_info st entries proj filename"
    by (rule extractSessionInfoE)
  from run_loop_toolUses [OF r] show ?thesis
    by (simp add: s make_info_def init_vars_def)
qed

text \<open>
  C6, as stated, fails: a tool name that is an object or an array is never found by
  \<^verbatim>\<open>includes\<close>, so two records with the field \<^verbatim>\<open>"tool": {}\<close> put two equal
  entries in the list.
\<close>

theorem tool_object_kept_twice:
  "map_sum id toolUses (extractSessionInfo [tool_object, tool_object] [] []) = Inr [JObj [], JObj []]
   \<and> \<not> distinct [JObj [], JObj []]"
  by (simp add: tool_object_def obj_def str_def aggregator_defs)

text \<open>
  C6, amended. The tool-name list is the contributed sequence, in order, less every
  name that is a primitive value (a string, a number, a boolean) equal to a name
  contributed before it. So it holds exactly the contributed names; the names that are
  objects or arrays are all kept, in order and as often as they are contributed; the
  primitive names in it are the first occurrences of the primitive contributed names,
  without duplicates; and when every contributed name is primitive it is the list of
  first occurrences of the contributed sequence, without duplicates. The contributed
  sequence grep, read, grep, write gives the list grep, read, write.
\<close>

theorem tool_names_first_occurrence:
  "(extractSessionInfo entries proj filename = Inr s \<longrightarrow>
      toolUses s = kept_names (contributed_names entries)
      \<and> set (toolUses s) = set (contributed_names entries)
      \<and> filter is_structured (toolUses s) = filter is_structured (contributed_names entries)
      \<and> filter is_primitive (toolUses s)
          = first_occurrences (filter is_primitive (contributed_names entries))
      \<and> distinct (filter is_primitive (toolUses s))
      \<and> ((\<forall>n \<in> set (contributed_names entries). is_primitive n) \<longrightarrow>
            toolUses s = first_occurrences (contributed_names entries) \<and> distinct (toolUses s)))
   \<and> (\<exists>s4. extractSessionInfo
               [tool_record ''grep'', tool_record ''read'', tool_record ''grep'', tool_record ''write'']
               proj filename = Inr s4
             \<and> toolUses s4 = [str ''grep'', str ''read'', str ''write''])"
proof (rule conjI)
  show "extractSessionInfo entries proj filename = Inr s \<longrightarrow>
      toolUses s = kept_names (contributed_names entries)
      \<and> set (toolUses s) = set (contributed_names entries)
      \<and> filter is_structured (toolUses s) = filter is_structured (contributed_names entries)
      \<and> filter is_primitive (toolUses s)
          = first_occurrences (filter is_primitive (contributed_names entries))
      \<and> distinct (filter is_primitive (toolUses s))
      \<and> ((\<forall>n \<in> set (contributed_names entries). is_primitive n) \<longrightarrow>
            toolUses s = first_occurrences (contributed_names entries) \<and> distinct (toolUses s))"
  proof (intro impI conjI)
    assume e: "extractSessionInfo entries proj filename = Inr s"
    note t = extract_toolUses [OF e]
    show "toolUses s = kept_names (contributed_names entries)"
      by (simp only: t foldl_push_unique_kept_names)
    show "set (toolUses s) = set (contributed_names entries)"
      by (simp add: t set_foldl_push_unique)
    show "filter is_structured (toolUses s) = filter is_structured (contributed_names entries)"
      by (simp add: t filter_structured_foldl)
    show "filter is_primitive (toolUses s)
          = first_occurrences (filter is_primitive (contributed_names entries))"
      by (simp only: t primitive_first_occurrences)
    show "distinct (filter is_primitive (toolUses s))"
      unfolding t by (rule distinct_primitive_foldl) simp
    assume p: "\<forall>n \<in> set (contributed_names entries). is_primitive n"
    from foldl_push_unique_first_occurrences [OF p, of "[]"]
    show fo: "toolUses s = first_occurrences (contributed_names entries)"
      by (simp add: t)
    show "distinct (toolUses s)"
      by (simp add: fo)
  qed
  show "\<exists>s4. extractSessionInfo
               [tool_record ''grep'', tool_record ''read'', tool_record ''grep'', tool_record ''write'']
               proj filename = Inr s4
             \<and> toolUses s4 = [str ''grep'', str ''read'', str ''write'']"
    by (simp add: tool_record_def obj_def str_def aggregator_defs)
qed

text \<open>
  A record naming grep, an assistant record with the blocks read and grep, and a record
  naming write contribute grep, read, grep, write, all primitive, and give grep, read,
  write.
\<close>

theorem tool_names_first_occurrence_witness:
  "\<exists>s. extractSessionInfo [tool_record ''grep'', assistant_tools, tool_record ''write''] [] [] = Inr s
       \<and> contributed_names [tool_record ''grep'', assistant_tools, tool_record ''write'']
           = [str ''grep'', str ''read'', str ''grep'', str ''write'']
       \<and> toolUses s = [str ''grep'', str ''read'', str ''write'']
       \<and> distinct (toolUses s)"
proof -
  let ?es = "[tool_record ''grep'', assistant_tools, tool_record ''write'']"
  have "\<exists>s. extractSessionInfo ?es [] [] = Inr s"
    by (simp add: tool_record_def assistant_tools_def obj_def str_def aggregator_defs)
  then obtain s where s: "extractSessionInfo ?es [] [] = Inr s" ..
  have c: "contributed_names ?es = [str ''grep'', str ''read'', str ''grep'', str ''write'']"
    by (simp add: contributed_names_def contributed_def contributes_tool_def entry_tool_name_def
        block_names_def block_name_def List.map_filter_simps js_or_def
        tool_record_def assistant_tools_def obj_def str_def)
  have f: "first_occurrences [str ''grep'', str ''read'', str ''grep'', str ''write'']
      = [str ''grep'', str ''read'', str ''write'']"
    by (simp add: first_occurrences_def str_def)
  have p: "\<forall>n \<in> set (contributed_names ?es). is_primitive n"
    by (simp add: c str_def)
  note t = tool_names_first_occurrence [of ?es "[]" "[]" s, THEN conjunct1, THEN mp, OF s]
  note u = t [THEN conjunct2, THEN conjunct2, THEN conjunct2, THEN conjunct2, THEN conjunct2,
      THEN mp, OF p]
  from u have "toolUses s = first_occurrences (contributed_names ?es)" "distinct (toolUses s)"
    by (rule conjunct1, rule conjunct2)
  with s c f show ?thesis by simp
qed

section \<open>The token equation\<close>




section \<open>Which usage object is counted\<close>




end
